theory Spec2Isabelle
  imports Main "HOL-Library.Sublist"
begin

section \<open>JavaScript values\<close>

text \<open>
  The service is a single Express application (\<^verbatim>\<open>src/fake-api.js\<close>) over one
  process-wide array \<^verbatim>\<open>todos\<close>. Its handlers read strings and parsed JSON from the
  request, coerce them with \<^verbatim>\<open>parseInt\<close>, \<^verbatim>\<open>Boolean\<close> and \<^verbatim>\<open>String.prototype.trim\<close>,
  and mutate the array. The embedding follows the language's coercion rules, so the values
  are modelled first.

  Numbers are doubles. The handlers only ever produce \<^verbatim>\<open>NaN\<close>, integers and infinities
  (the start value of \<^verbatim>\<open>Math.max\<close>, and \<^verbatim>\<open>parseInt\<close> of a digit string beyond the
  doubles). \<open>Num n\<close> stands for the double whose value is the integer \<open>n\<close>; \<^verbatim>\<open>parseInt\<close> and
  \<^verbatim>\<open>ToString\<close> below round and print as the language does. Doubles with a fraction are
  outside the model. \<^verbatim>\<open>-0\<close> is \<open>Num 0\<close> (it is falsy and strictly equal to \<^verbatim>\<open>0\<close>).
\<close>

datatype jsnum = NaN | Num int | PosInf | NegInf

text \<open>
  Strings are sequences of code units; the model has the 8-bit ones (\<open>char\<close>), which
  cover ASCII and the Latin-1 range. Objects are the plain objects that \<^verbatim>\<open>JSON.parse\<close>
  and the query-string parser build: an ordered list of own properties, none of them
  callable.
\<close>

datatype jsval =
    JUndefined
  | JNull
  | JBool bool
  | JNum jsnum
  | JStr string
  | JArr "jsval list"
  | JObj "(string \<times> jsval) list"

text \<open>The only exception the handlers can raise is a \<^verbatim>\<open>TypeError\<close>; it carries its message.\<close>

datatype js_error = TypeError string

subsection \<open>Property access, truthiness, strict equality\<close>

text \<open>
  \<^verbatim>\<open>o.k\<close> for the property names the handlers read (\<^verbatim>\<open>title\<close>, \<^verbatim>\<open>completed\<close>,
  \<^verbatim>\<open>userId\<close>, \<^verbatim>\<open>limit\<close>): none of them is defined on \<^verbatim>\<open>Object.prototype\<close> or
  \<^verbatim>\<open>Array.prototype\<close>, so the value is the own property or \<^verbatim>\<open>undefined\<close>.
  \<^verbatim>\<open>req.body\<close> and \<^verbatim>\<open>req.query\<close> are always objects or arrays after the body parser.
\<close>

definition get_prop :: "jsval \<Rightarrow> string \<Rightarrow> jsval" where
  "get_prop v k =
     (case v of
        JObj kvs \<Rightarrow> (case map_of kvs k of Some x \<Rightarrow> x | None \<Rightarrow> JUndefined)
      | _ \<Rightarrow> JUndefined)"

text \<open>A destructuring default \<^verbatim>\<open>{ k = d }\<close> applies when the property is \<^verbatim>\<open>undefined\<close>.\<close>

definition with_default :: "jsval \<Rightarrow> jsval \<Rightarrow> jsval" where
  "with_default v d = (if v = JUndefined then d else v)"

fun truthy_num :: "jsnum \<Rightarrow> bool" where
  "truthy_num NaN = False"
| "truthy_num (Num n) = (n \<noteq> 0)"
| "truthy_num PosInf = True"
| "truthy_num NegInf = True"

text \<open>\<^verbatim>\<open>Boolean(v)\<close>, which is also the test of \<^verbatim>\<open>if (v)\<close>, \<^verbatim>\<open>!v\<close> and \<^verbatim>\<open>v ? a : b\<close>.\<close>

fun Boolean :: "jsval \<Rightarrow> bool" where
  "Boolean JUndefined = False"
| "Boolean JNull = False"
| "Boolean (JBool b) = b"
| "Boolean (JNum n) = truthy_num n"
| "Boolean (JStr s) = (s \<noteq> [])"
| "Boolean (JArr xs) = True"
| "Boolean (JObj kvs) = True"

text \<open>\<^verbatim>\<open>a === b\<close> on numbers: \<^verbatim>\<open>NaN\<close> is equal to nothing, itself included.\<close>

definition strict_eq :: "jsnum \<Rightarrow> jsnum \<Rightarrow> bool" where
  "strict_eq a b = (a \<noteq> NaN \<and> b \<noteq> NaN \<and> a = b)"

text \<open>\<^verbatim>\<open>a || b\<close> on numbers.\<close>

definition js_or :: "jsnum \<Rightarrow> jsnum \<Rightarrow> jsnum" where
  "js_or a b = (if truthy_num a then a else b)"

subsection \<open>Arithmetic: \<^verbatim>\<open>Math.max\<close> and \<^verbatim>\<open>+\<close>\<close>

text \<open>\<^verbatim>\<open>a < b\<close> on numbers that are not \<^verbatim>\<open>NaN\<close>.\<close>

fun js_less :: "jsnum \<Rightarrow> jsnum \<Rightarrow> bool" where
  "js_less (Num a) (Num b) = (a < b)"
| "js_less NegInf (Num b) = True"
| "js_less NegInf PosInf = True"
| "js_less (Num a) PosInf = True"
| "js_less _ _ = False"

text \<open>
  \<^verbatim>\<open>Math.max(...args)\<close>: the running maximum starts at \<^verbatim>\<open>-Infinity\<close>; a \<^verbatim>\<open>NaN\<close>
  argument makes the result \<^verbatim>\<open>NaN\<close>.
\<close>

fun max_loop :: "jsnum \<Rightarrow> jsnum list \<Rightarrow> jsnum" where
  "max_loop highest [] = highest"
| "max_loop highest (x # xs) =
     (if x = NaN then NaN
      else max_loop (if js_less highest x then x else highest) xs)"

definition Math_max :: "jsnum list \<Rightarrow> jsnum" where
  "Math_max args = max_loop NegInf args"

text \<open>
  \<^verbatim>\<open>a + b\<close> on numbers. The sum of two integers is the exact one: it is a double as long
  as it stays below \<open>2^53\<close>, and the handlers only add 1 to the greatest id, which is
  at most 5 plus the number of records created so far.
\<close>

fun js_add :: "jsnum \<Rightarrow> jsnum \<Rightarrow> jsnum" where
  "js_add (Num a) (Num b) = Num (a + b)"
| "js_add NaN _ = NaN"
| "js_add _ NaN = NaN"
| "js_add PosInf NegInf = NaN"
| "js_add NegInf PosInf = NaN"
| "js_add PosInf _ = PosInf"
| "js_add _ PosInf = PosInf"
| "js_add NegInf _ = NegInf"
| "js_add _ NegInf = NegInf"

text \<open>\<^verbatim>\<open>Number.isInteger\<close>.\<close>

fun is_integer :: "jsnum \<Rightarrow> bool" where
  "is_integer (Num n) = True"
| "is_integer _ = False"

subsection \<open>Strings: \<^verbatim>\<open>trim\<close>, \<^verbatim>\<open>parseInt\<close>, \<^verbatim>\<open>ToString\<close>\<close>

text \<open>
  White space and line terminators among the 8-bit code units: TAB, LF, VT, FF, CR,
  SPACE and NO-BREAK SPACE. \<^verbatim>\<open>trim\<close> and \<^verbatim>\<open>parseInt\<close> strip the same set.
\<close>

definition is_ws :: "char \<Rightarrow> bool" where
  "is_ws c = ((of_char c :: nat) \<in> {9, 10, 11, 12, 13, 32, 160})"

definition trim :: "string \<Rightarrow> string" where
  "trim s = rev (dropWhile is_ws (rev (dropWhile is_ws s)))"

text \<open>The value of a code unit as a digit: \<^verbatim>\<open>0-9\<close>, then \<^verbatim>\<open>a-z\<close> and \<^verbatim>\<open>A-Z\<close> for 10 to 35.\<close>

definition digit_val :: "char \<Rightarrow> int option" where
  "digit_val c =
     (let k = (of_char c :: int) in
      if 48 \<le> k \<and> k \<le> 57 then Some (k - 48)
      else if 97 \<le> k \<and> k \<le> 122 then Some (k - 87)
      else if 65 \<le> k \<and> k \<le> 90 then Some (k - 55)
      else None)"

definition is_digit :: "int \<Rightarrow> char \<Rightarrow> bool" where
  "is_digit R c = (case digit_val c of Some d \<Rightarrow> d < R | None \<Rightarrow> False)"

text \<open>The mathematical integer that a run of digits denotes in radix \<open>R\<close>.\<close>

definition digits_value :: "int \<Rightarrow> string \<Rightarrow> int" where
  "digits_value R ds =
     foldl (\<lambda>acc c. case digit_val c of Some d \<Rightarrow> acc * R + d | None \<Rightarrow> acc) 0 ds"

subsection \<open>Integers as doubles\<close>

text \<open>
  A number is a double. The conversion of a mathematical integer to the nearest double
  (ties to the even significand) keeps the 53 leading bits; from \<open>2^1024 - 2^970\<close> on the
  result is an infinity.
\<close>

function bit_len :: "int \<Rightarrow> nat" where
  "bit_len m = (if m \<le> 0 then 0 else Suc (bit_len (m div 2)))"
  by pat_completeness auto
termination
  by (relation "measure nat") auto

text \<open>The magnitude, rounded to 53 significant bits.\<close>

definition round_53 :: "int \<Rightarrow> int" where
  "round_53 m =
     (let b = bit_len m in
      if b \<le> 53 then m
      else
        let e = b - 53;
            q = m div 2 ^ e;
            r = m mod 2 ^ e;
            half = 2 ^ (e - 1);
            q1 = (if half < r \<or> (r = half \<and> odd q) then q + 1 else q)
        in q1 * 2 ^ e)"

definition round_double :: "int \<Rightarrow> jsnum" where
  "round_double x =
     (let m = round_53 \<bar>x\<bar> in
      if 2 ^ 1024 \<le> m then (if x < 0 then NegInf else PosInf)
      else Num (if x < 0 then - m else m))"

text \<open>
  \<^verbatim>\<open>parseInt(s)\<close> on a string, no radix given: skip leading white space, read a sign,
  switch to radix 16 after \<^verbatim>\<open>0x\<close> or \<^verbatim>\<open>0X\<close>, and read the longest run of digits; no
  digit at all is \<^verbatim>\<open>NaN\<close>. Whatever follows the digits is ignored. The result is the
  double nearest to the integer read (the language lets an implementation drop decimal
  digits after the 20th; Node converts all of them).
\<close>

definition parseInt_str :: "string \<Rightarrow> jsnum" where
  "parseInt_str s =
     (let s1 = dropWhile is_ws s;
          (sign, s2) = (case s1 of
                          c # r \<Rightarrow> if c = CHR ''-'' then (- 1 :: int, r)
                                   else if c = CHR ''+'' then (1, r) else (1, s1)
                        | [] \<Rightarrow> (1, s1));
          (R, s3) = (case s2 of
                       c # x # r \<Rightarrow> if c = CHR ''0'' \<and> (x = CHR ''x'' \<or> x = CHR ''X'')
                                       then (16 :: int, r) else (10, s2)
                     | _ \<Rightarrow> (10, s2));
          Z = takeWhile (is_digit R) s3
      in if Z = [] then NaN else round_double (sign * digits_value R Z))"

subsection \<open>\<^verbatim>\<open>ToString\<close> of a number\<close>

text \<open>The decimal digits of a non-negative integer, and how many they are.\<close>

function int_digits :: "int \<Rightarrow> string" where
  "int_digits n =
     (if n < 10 then [char_of (48 + n)]
      else int_digits (n div 10) @ [char_of (48 + n mod 10)])"
  by pat_completeness auto
termination
  by (relation "measure nat") auto

function dec_len :: "int \<Rightarrow> nat" where
  "dec_len n = (if n < 10 then 1 else Suc (dec_len (n div 10)))"
  by pat_completeness auto
termination
  by (relation "measure nat") auto

text \<open>
  \<^verbatim>\<open>ToString\<close> writes the shortest decimal digits \<open>s\<close> (\<open>k\<close> of them) that still denote
  the double \<open>x\<close>: \<open>s * 10^(D - k)\<close> converts back to \<open>x\<close>, where \<open>x\<close> has \<open>D\<close> decimal
  digits. For each \<open>k\<close> from 1 the two candidates around \<open>x\<close> are tried; when both convert
  back, the closer one is taken, the even one on a tie. With \<open>k = D\<close> the digits are
  those of \<open>x\<close> itself.
\<close>

function shortest_from :: "int \<Rightarrow> nat \<Rightarrow> nat \<Rightarrow> int \<times> nat" where
  "shortest_from x D k =
     (if D \<le> k then (x, D)
      else
        let p = 10 ^ (D - k);
            lo = x div p;
            hi = lo + 1;
            lo_ok = (round_53 (lo * p) = x);
            hi_ok = (hi < 10 ^ k \<and> round_53 (hi * p) = x)
        in if lo_ok \<and> hi_ok then
             (if x - lo * p < hi * p - x then (lo, k)
              else if hi * p - x < x - lo * p then (hi, k)
              else if even lo then (lo, k) else (hi, k))
           else if lo_ok then (lo, k)
           else if hi_ok then (hi, k)
           else shortest_from x D (Suc k))"
  by pat_completeness auto
termination
  by (relation "measure (\<lambda>(x, D, k). D - k)") auto

text \<open>
  The digits \<open>s\<close>, their number \<open>k\<close> and the position \<open>n\<close> of the decimal point, as
  \<^verbatim>\<open>Number::toString\<close> names them. A double just below a power of ten that this power
  converts to is written as that power.
\<close>

definition shortest_digits :: "int \<Rightarrow> int \<times> nat \<times> nat" where
  "shortest_digits x =
     (let D = dec_len x in
      if round_53 (10 ^ D) = x then (1, 1, D + 1)
      else (case shortest_from x D 1 of (s, k) \<Rightarrow> (s, k, D)))"

text \<open>
  Up to 21 digits an integer is written in full, the digits of \<open>s\<close> and then zeros;
  beyond, in exponent notation. (For a number below \<open>2^53\<close> these are just its digits.)
\<close>

fun num_to_string :: "jsnum \<Rightarrow> string" where
  "num_to_string NaN = ''NaN''"
| "num_to_string PosInf = ''Infinity''"
| "num_to_string NegInf = ''-Infinity''"
| "num_to_string (Num x) =
     (case shortest_digits \<bar>x\<bar> of
        (s, k, n) \<Rightarrow>
          (if x < 0 then ''-'' else []) @
          (if n \<le> 21 then int_digits s @ replicate (n - k) (CHR ''0'')
           else (case int_digits s of
                   d # ds \<Rightarrow> d # (if ds = [] then [] else CHR ''.'' # ds)
                 | [] \<Rightarrow> []) @ ''e+'' @ int_digits (int (n - 1))))"

text \<open>\<^verbatim>\<open>Array.prototype.join(",")\<close> on the strings of the elements.\<close>

fun join_comma :: "string list \<Rightarrow> string" where
  "join_comma [] = []"
| "join_comma [s] = s"
| "join_comma (s # t # ss) = s @ '','' @ join_comma (t # ss)"

text \<open>
  \<^verbatim>\<open>ToString(v)\<close>, the conversion \<^verbatim>\<open>parseInt\<close> applies to its argument. An array is
  joined with commas, \<^verbatim>\<open>null\<close> and \<^verbatim>\<open>undefined\<close> elements giving the empty string. A plain
  object gives \<^verbatim>\<open>[object Object]\<close>, unless it has an own property \<^verbatim>\<open>toString\<close>: that
  property is not callable, \<^verbatim>\<open>Object.prototype.valueOf\<close> returns the object itself, and
  the conversion throws.
\<close>

fun ToString :: "jsval \<Rightarrow> js_error + string"
  and ToString_elems :: "jsval list \<Rightarrow> js_error + string list" where
  "ToString JUndefined = Inr ''undefined''"
| "ToString JNull = Inr ''null''"
| "ToString (JBool b) = Inr (if b then ''true'' else ''false'')"
| "ToString (JNum n) = Inr (num_to_string n)"
| "ToString (JStr s) = Inr s"
| "ToString (JArr xs) =
     (case ToString_elems xs of Inl e \<Rightarrow> Inl e | Inr ss \<Rightarrow> Inr (join_comma ss))"
| "ToString (JObj kvs) =
     (if ''toString'' \<in> set (map fst kvs)
      then Inl (TypeError ''Cannot convert object to primitive value'')
      else Inr ''[object Object]'')"
| "ToString_elems [] = Inr []"
| "ToString_elems (x # xs) =
     (case (if x = JUndefined \<or> x = JNull then Inr [] else ToString x) of
        Inl e \<Rightarrow> Inl e
      | Inr s \<Rightarrow> (case ToString_elems xs of Inl e \<Rightarrow> Inl e | Inr ss \<Rightarrow> Inr (s # ss)))"

definition parseInt :: "jsval \<Rightarrow> js_error + jsnum" where
  "parseInt v = (case ToString v of Inl e \<Rightarrow> Inl e | Inr s \<Rightarrow> Inr (parseInt_str s))"

text \<open>
  \<^verbatim>\<open>title.trim()\<close>: a string is trimmed; on \<^verbatim>\<open>null\<close> the property read throws; any other
  value has no callable \<^verbatim>\<open>trim\<close> and the call throws.
\<close>

fun call_trim :: "jsval \<Rightarrow> js_error + string" where
  "call_trim (JStr s) = Inr (trim s)"
| "call_trim JUndefined =
     Inl (TypeError ''Cannot read properties of undefined (reading 'trim')'')"
| "call_trim JNull = Inl (TypeError ''Cannot read properties of null (reading 'trim')'')"
| "call_trim _ = Inl (TypeError ''title.trim is not a function'')"

section \<open>The store\<close>

text \<open>
  A todo record as the \<^verbatim>\<open>todos\<close> array holds it. \<^verbatim>\<open>userId\<close> and \<^verbatim>\<open>id\<close> are numbers
  (whatever \<^verbatim>\<open>parseInt\<close> and \<^verbatim>\<open>Math.max(...) + 1\<close> produced), \<^verbatim>\<open>title\<close> is always the
  result of \<^verbatim>\<open>trim\<close> and \<^verbatim>\<open>completed\<close> the result of \<^verbatim>\<open>Boolean\<close> or \<^verbatim>\<open>!\<close>. The field
  \<^verbatim>\<open>id\<close> is written \<open>id'\<close>.
\<close>

record todo =
  userId :: jsnum
  id' :: jsnum
  title :: string
  completed :: bool

text \<open>The array at start-up (lines 25 to 31).\<close>

definition todos_init :: "todo list" where
  "todos_init =
     [\<lparr>userId = Num 1, id' = Num 1, title = ''delectus aut autem'', completed = False\<rparr>,
      \<lparr>userId = Num 1, id' = Num 2, title = ''quis ut nam facilis'', completed = True\<rparr>,
      \<lparr>userId = Num 1, id' = Num 3, title = ''fugiat veniam minus'', completed = False\<rparr>,
      \<lparr>userId = Num 1, id' = Num 4, title = ''et porro tempora'', completed = True\<rparr>,
      \<lparr>userId = Num 2, id' = Num 5, title = ''laboriosam mollitia'', completed = False\<rparr>]"

text \<open>A record as the JavaScript object handed to \<^verbatim>\<open>res.json\<close>, properties in literal order.\<close>

definition todo_json :: "todo \<Rightarrow> jsval" where
  "todo_json t =
     JObj [(''userId'', JNum (userId t)), (''id'', JNum (id' t)),
           (''title'', JStr (title t)), (''completed'', JBool (completed t))]"

subsection \<open>Array methods\<close>

text \<open>
  \<^verbatim>\<open>findIndex\<close> and \<^verbatim>\<open>find\<close> both scan from index 0 for the first element that satisfies
  the predicate. \<^verbatim>\<open>findIndex\<close> returns its index, \<open>None\<close> standing for \<^verbatim>\<open>-1\<close>.
  \<^verbatim>\<open>find\<close> returns the element itself, \<open>None\<close> standing for \<^verbatim>\<open>undefined\<close>: that is a
  reference to the object in the array, and an assignment through it changes the array's
  element. Every slot of \<^verbatim>\<open>todos\<close> holds an object of its own (objects are made by the
  literals of lines 26 to 30 and 74 only and are pushed once), so the reference is
  modelled by the slot together with the object found there.
\<close>

primrec first_match :: "('a \<Rightarrow> bool) \<Rightarrow> 'a list \<Rightarrow> nat option" where
  "first_match P [] = None"
| "first_match P (x # xs) =
     (if P x then Some 0 else map_option Suc (first_match P xs))"

definition findIndex :: "('a \<Rightarrow> bool) \<Rightarrow> 'a list \<Rightarrow> nat option" where
  "findIndex P xs = first_match P xs"

definition find_js :: "('a \<Rightarrow> bool) \<Rightarrow> 'a list \<Rightarrow> (nat \<times> 'a) option" where
  "find_js P xs = map_option (\<lambda>i. (i, xs ! i)) (first_match P xs)"

text \<open>\<^verbatim>\<open>xs.splice(i, 1)\<close> for an index inside the array: what is left in the array.\<close>

definition splice1 :: "'a list \<Rightarrow> nat \<Rightarrow> 'a list" where
  "splice1 xs i = take i xs @ drop (Suc i) xs"

text \<open>
  \<^verbatim>\<open>xs.slice(0, end)\<close>: a negative end counts from the back, and the end is clamped to
  the array; \<^verbatim>\<open>NaN\<close> converts to 0.
\<close>

definition slice0 :: "'a list \<Rightarrow> jsnum \<Rightarrow> 'a list" where
  "slice0 xs e =
     (case e of
        NaN \<Rightarrow> []
      | NegInf \<Rightarrow> []
      | PosInf \<Rightarrow> xs
      | Num n \<Rightarrow> if n < 0 then take (nat (max (int (length xs) + n) 0)) xs
                 else take (nat (min n (int (length xs)))) xs)"

section \<open>Requests and responses\<close>

text \<open>
  What a handler reads of a request: the path parameter \<^verbatim>\<open>req.params.id\<close> (a string),
  \<^verbatim>\<open>req.query\<close>, \<^verbatim>\<open>req.body\<close>, and the reading of the clock that
  \<^verbatim>\<open>new Date().toISOString()\<close> gives when the response is built.
\<close>

record request =
  params_id :: string
  query :: jsval
  body :: jsval
  now :: string

text \<open>
  A response is the status code and the value passed to \<^verbatim>\<open>res.json\<close> (its serialisation,
  where \<^verbatim>\<open>NaN\<close> is written \<^verbatim>\<open>null\<close>, is not modelled).
\<close>

datatype response = Response (status: nat) (json: jsval)

text \<open>
  A handler returns the response it sent, or the exception it threw, together with the
  array as it left it.
\<close>

type_synonym outcome = "(js_error + response) \<times> todo list"

section \<open>The handlers\<close>

text \<open>\<^verbatim>\<open>GET /todos\<close> (lines 34 to 44).\<close>

definition get_todos :: "request \<Rightarrow> todo list \<Rightarrow> outcome" where
  "get_todos req todos =
     (case parseInt (get_prop (query req) ''limit'') of
        Inl e \<Rightarrow> (Inl e, todos)
      | Inr l \<Rightarrow>
          let limit = js_or l (Num (int (length todos))) in
          (case (if Boolean (get_prop (query req) ''userId'')
                 then map_sum (\<lambda>e. e) Some (parseInt (get_prop (query req) ''userId''))
                 else Inr None) of
             Inl e \<Rightarrow> (Inl e, todos)
           | Inr userIdQ \<Rightarrow>
               let filteredTodos =
                     (case userIdQ of
                        None \<Rightarrow> todos
                      | Some u \<Rightarrow> if truthy_num u
                                  then filter (\<lambda>t. strict_eq (userId t) u) todos
                                  else todos)
               in (Inr (Response 200 (JArr (map todo_json (slice0 filteredTodos limit)))),
                   todos)))"

text \<open>\<^verbatim>\<open>GET /todos/:id\<close> (lines 47 to 60).\<close>

definition get_todo :: "request \<Rightarrow> todo list \<Rightarrow> outcome" where
  "get_todo req todos =
     (let idv = parseInt_str (params_id req) in
      case find_js (\<lambda>t. strict_eq (id' t) idv) todos of
        Some (i, todo) \<Rightarrow> (Inr (Response 200 (todo_json todo)), todos)
      | None \<Rightarrow>
          (Inr (Response 404
             (JObj [(''error'', JStr ''Todo not found''),
                    (''id'', JNum idv),
                    (''available_ids'', JArr (map (\<lambda>t. JNum (id' t)) todos))])),
           todos))"

text \<open>
  \<^verbatim>\<open>POST /todos\<close> (lines 63 to 88). The object literal evaluates \<^verbatim>\<open>parseInt(userId)\<close>,
  then \<^verbatim>\<open>title.trim()\<close>; either may throw, before the \<^verbatim>\<open>push\<close>.
\<close>

definition post_todos :: "request \<Rightarrow> todo list \<Rightarrow> outcome" where
  "post_todos req todos =
     (let titleB = get_prop (body req) ''title'';
          completedB = with_default (get_prop (body req) ''completed'') (JBool False);
          userIdB = with_default (get_prop (body req) ''userId'') (JNum (Num 1))
      in if \<not> Boolean titleB
         then (Inr (Response 400
                 (JObj [(''error'', JStr ''Title is required''),
                        (''received_body'', body req)])),
               todos)
         else
           let newId = js_add (Math_max (map id' todos @ [Num 0])) (Num 1) in
           (case parseInt userIdB of
              Inl e \<Rightarrow> (Inl e, todos)
            | Inr u \<Rightarrow>
                (case call_trim titleB of
                   Inl e \<Rightarrow> (Inl e, todos)
                 | Inr t \<Rightarrow>
                     let newTodo = \<lparr>userId = u, id' = newId, title = t,
                                    completed = Boolean completedB\<rparr>
                     in (Inr (Response 201
                           (JObj [(''message'', JStr ''Todo created successfully''),
                                  (''todo'', todo_json newTodo),
                                  (''timestamp'', JStr (now req))])),
                         todos @ [newTodo]))))"

text \<open>
  \<^verbatim>\<open>PUT /todos/:id\<close> (lines 91 to 124). The three assignments happen in order; an
  exception in one of them leaves the earlier ones in the array.
\<close>

definition put_todo :: "request \<Rightarrow> todo list \<Rightarrow> outcome" where
  "put_todo req todos =
     (let idv = parseInt_str (params_id req) in
      case findIndex (\<lambda>t. strict_eq (id' t) idv) todos of
        None \<Rightarrow>
          (Inr (Response 404 (JObj [(''error'', JStr ''Todo not found''), (''id'', JNum idv)])),
           todos)
      | Some todoIndex \<Rightarrow>
          let titleB = get_prop (body req) ''title'';
              completedB = get_prop (body req) ''completed'';
              userIdB = get_prop (body req) ''userId''
          in
          (case (if titleB \<noteq> JUndefined
                 then (case call_trim titleB of
                         Inl e \<Rightarrow> Inl e
                       | Inr v \<Rightarrow> Inr (todos[todoIndex := (todos ! todoIndex)\<lparr>title := v\<rparr>]))
                 else Inr todos) of
             Inl e \<Rightarrow> (Inl e, todos)
           | Inr todos1 \<Rightarrow>
               let todos2 =
                     (if completedB \<noteq> JUndefined
                      then todos1[todoIndex :=
                             (todos1 ! todoIndex)\<lparr>completed := Boolean completedB\<rparr>]
                      else todos1)
               in
               (case (if userIdB \<noteq> JUndefined
                      then (case parseInt userIdB of
                              Inl e \<Rightarrow> Inl e
                            | Inr u \<Rightarrow>
                                Inr (todos2[todoIndex := (todos2 ! todoIndex)\<lparr>userId := u\<rparr>]))
                      else Inr todos2) of
                  Inl e \<Rightarrow> (Inl e, todos2)
                | Inr todos3 \<Rightarrow>
                    (Inr (Response 200
                       (JObj [(''message'', JStr ''Todo updated successfully''),
                              (''updated_todo'', todo_json (todos3 ! todoIndex)),
                              (''updated_fields'',
                                 JObj [(''title'', JBool (titleB \<noteq> JUndefined)),
                                       (''completed'', JBool (completedB \<noteq> JUndefined)),
                                       (''userId'', JBool (userIdB \<noteq> JUndefined))]),
                              (''timestamp'', JStr (now req))])),
                     todos3))))"

text \<open>
  \<^verbatim>\<open>PATCH /todos/:id\<close> (lines 127 to 160): the same three assignments, made through the
  reference \<^verbatim>\<open>todo\<close> that \<^verbatim>\<open>find\<close> returned; \<open>todo1\<close>, \<open>todo2\<close>, \<open>todo3\<close> are the object
  after each of them.
\<close>

definition patch_todo :: "request \<Rightarrow> todo list \<Rightarrow> outcome" where
  "patch_todo req todos =
     (let idv = parseInt_str (params_id req) in
      case find_js (\<lambda>t. strict_eq (id' t) idv) todos of
        None \<Rightarrow>
          (Inr (Response 404 (JObj [(''error'', JStr ''Todo not found''), (''id'', JNum idv)])),
           todos)
      | Some (ref, todo) \<Rightarrow>
          let titleB = get_prop (body req) ''title'';
              completedB = get_prop (body req) ''completed'';
              userIdB = get_prop (body req) ''userId''
          in
          (case (if titleB \<noteq> JUndefined
                 then (case call_trim titleB of
                         Inl e \<Rightarrow> Inl e
                       | Inr v \<Rightarrow> Inr (todo\<lparr>title := v\<rparr>, [''title'']))
                 else Inr (todo, [])) of
             Inl e \<Rightarrow> (Inl e, todos)
           | Inr (todo1, updatedFields1) \<Rightarrow>
               let (todo2, updatedFields2) =
                     (if completedB \<noteq> JUndefined
                      then (todo1\<lparr>completed := Boolean completedB\<rparr>,
                            updatedFields1 @ [''completed''])
                      else (todo1, updatedFields1))
               in
               (case (if userIdB \<noteq> JUndefined
                      then (case parseInt userIdB of
                              Inl e \<Rightarrow> Inl e
                            | Inr u \<Rightarrow> Inr (todo2\<lparr>userId := u\<rparr>, updatedFields2 @ [''userId'']))
                      else Inr (todo2, updatedFields2)) of
                  Inl e \<Rightarrow> (Inl e, todos[ref := todo2])
                | Inr (todo3, updatedFields3) \<Rightarrow>
                    (Inr (Response 200
                       (JObj [(''message'', JStr ''Todo partially updated''),
                              (''todo'', todo_json todo3),
                              (''updated_fields'', JArr (map JStr updatedFields3)),
                              (''timestamp'', JStr (now req))])),
                     todos[ref := todo3]))))"

text \<open>\<^verbatim>\<open>DELETE /todos/:id\<close> (lines 163 to 181).\<close>

definition delete_todo :: "request \<Rightarrow> todo list \<Rightarrow> outcome" where
  "delete_todo req todos =
     (let idv = parseInt_str (params_id req) in
      case findIndex (\<lambda>t. strict_eq (id' t) idv) todos of
        Some todoIndex \<Rightarrow>
          let deletedTodo = todos ! todoIndex;
              todos1 = splice1 todos todoIndex
          in (Inr (Response 200
                (JObj [(''message'', JStr ''Todo deleted successfully''),
                       (''deleted_todo'', todo_json deletedTodo),
                       (''remaining_todos'', JNum (Num (int (length todos1)))),
                       (''timestamp'', JStr (now req))])),
              todos1)
      | None \<Rightarrow>
          (Inr (Response 404 (JObj [(''error'', JStr ''Todo not found''), (''id'', JNum idv)])),
           todos))"

text \<open>\<^verbatim>\<open>POST /todos/:id/toggle\<close> (lines 184 to 201).\<close>

definition toggle_todo :: "request \<Rightarrow> todo list \<Rightarrow> outcome" where
  "toggle_todo req todos =
     (let idv = parseInt_str (params_id req) in
      case find_js (\<lambda>t. strict_eq (id' t) idv) todos of
        Some (ref, todo) \<Rightarrow>
          let todo1 = todo\<lparr>completed := \<not> completed todo\<rparr>
          in (Inr (Response 200
                (JObj [(''message'',
                          JStr (''Todo '' @ (if completed todo1 then ''completed''
                                             else ''uncompleted''))),
                       (''todo'', todo_json todo1),
                       (''timestamp'', JStr (now req))])),
              todos[ref := todo1])
      | None \<Rightarrow>
          (Inr (Response 404 (JObj [(''error'', JStr ''Todo not found''), (''id'', JNum idv)])),
           todos))"

text \<open>\<^verbatim>\<open>POST /todos/:id/complete\<close> (lines 204 to 223).\<close>

definition complete_todo :: "request \<Rightarrow> todo list \<Rightarrow> outcome" where
  "complete_todo req todos =
     (let idv = parseInt_str (params_id req);
          completedB = with_default (get_prop (body req) ''completed'') (JBool True)
      in case find_js (\<lambda>t. strict_eq (id' t) idv) todos of
        Some (ref, todo) \<Rightarrow>
          let todo1 = todo\<lparr>completed := Boolean completedB\<rparr>
          in (Inr (Response 200
                (JObj [(''message'',
                          JStr (''Todo marked as '' @ (if completed todo1 then ''completed''
                                                       else ''incomplete''))),
                       (''todo'', todo_json todo1),
                       (''action'', JStr (if Boolean completedB then ''completed''
                                          else ''uncompleted'')),
                       (''timestamp'', JStr (now req))])),
              todos[ref := todo1])
      | None \<Rightarrow>
          (Inr (Response 404 (JObj [(''error'', JStr ''Todo not found''), (''id'', JNum idv)])),
           todos))"

section \<open>The application\<close>

text \<open>
  The error-handling middleware (lines 287 to 294): Express passes an exception thrown by
  a handler to it, and it answers 500 with the exception's message.
\<close>

definition error_handler :: "js_error \<Rightarrow> request \<Rightarrow> response" where
  "error_handler err req =
     (case err of
        TypeError message \<Rightarrow>
          Response 500
            (JObj [(''error'', JStr ''Internal Server Error''),
                   (''message'', JStr message),
                   (''timestamp'', JStr (now req))]))"

text \<open>The routes that read or change \<^verbatim>\<open>todos\<close>.\<close>

datatype route =
    GET_todos
  | GET_todo
  | POST_todos
  | PUT_todo
  | PATCH_todo
  | DELETE_todo
  | POST_toggle
  | POST_complete

fun handler :: "route \<Rightarrow> request \<Rightarrow> todo list \<Rightarrow> outcome" where
  "handler GET_todos = get_todos"
| "handler GET_todo = get_todo"
| "handler POST_todos = post_todos"
| "handler PUT_todo = put_todo"
| "handler PATCH_todo = patch_todo"
| "handler DELETE_todo = delete_todo"
| "handler POST_toggle = toggle_todo"
| "handler POST_complete = complete_todo"

text \<open>One request served: the response the client gets and the array afterwards.\<close>

definition serve :: "route \<Rightarrow> request \<Rightarrow> todo list \<Rightarrow> response \<times> todo list" where
  "serve r req todos =
     (case handler r req todos of
        (Inl err, todos1) \<Rightarrow> (error_handler err req, todos1)
      | (Inr res, todos1) \<Rightarrow> (res, todos1))"

text \<open>The states of the array that some sequence of requests leads to.\<close>

inductive reachable :: "todo list \<Rightarrow> bool" where
  init: "reachable todos_init"
| step: "reachable todos \<Longrightarrow> reachable (snd (serve r req todos))"

section \<open>The data model's invariant and the specified operations\<close>

text \<open>
  The invariant the array has in every reachable state: the ids are positive integers and
  pairwise distinct.
\<close>

definition store_inv :: "todo list \<Rightarrow> bool" where
  "store_inv todos =
     (distinct (map id' todos) \<and>
      (\<forall>t \<in> set todos. is_integer (id' t) \<and> js_less (Num 0) (id' t)))"

text \<open>
  The invariant as the specification words it: moreover every \<^verbatim>\<open>userId\<close> is an integer.
\<close>

definition spec_inv :: "todo list \<Rightarrow> bool" where
  "spec_inv todos = (store_inv todos \<and> (\<forall>t \<in> set todos. is_integer (userId t)))"

text \<open>The integer that an integer-valued number stands for.\<close>

fun int_of :: "jsnum \<Rightarrow> int" where
  "int_of (Num n) = n"
| "int_of _ = 0"

text \<open>
  The id the specification assigns at creation: \<^verbatim>\<open>max(existing ids, 0) + 1\<close>.
\<close>

definition next_id_spec :: "todo list \<Rightarrow> int" where
  "next_id_spec todos = Max (insert 0 (int_of ` id' ` set todos)) + 1"

text \<open>
  The specification's \<^verbatim>\<open>list\<close>: the records in insertion order, filtered by exact
  \<^verbatim>\<open>userId\<close> match when a filter is given, truncated to the first \<^verbatim>\<open>limit\<close> elements
  when a limit is given.
\<close>

definition list_spec :: "int option \<Rightarrow> nat option \<Rightarrow> todo list \<Rightarrow> todo list" where
  "list_spec userIdF limitF todos =
     (let filtered = (case userIdF of
                        None \<Rightarrow> todos
                      | Some u \<Rightarrow> filter (\<lambda>t. userId t = Num u) todos)
      in case limitF of None \<Rightarrow> filtered | Some n \<Rightarrow> take n filtered)"

text \<open>
  The specification's update of one record: only the supplied fields are overwritten,
  with the trimmed title, the boolean and the parsed number.
\<close>

definition apply_supplied :: "string option \<Rightarrow> bool option \<Rightarrow> jsnum option \<Rightarrow> todo \<Rightarrow> todo" where
  "apply_supplied titleF completedF userIdF t =
     (let t1 = (case titleF of None \<Rightarrow> t | Some s \<Rightarrow> t\<lparr>title := trim s\<rparr>);
          t2 = (case completedF of None \<Rightarrow> t1 | Some b \<Rightarrow> t1\<lparr>completed := b\<rparr>)
      in case userIdF of None \<Rightarrow> t2 | Some u \<Rightarrow> t2\<lparr>userId := u\<rparr>)"

section \<open>Example requests\<close>

definition request_of :: "string \<Rightarrow> (string \<times> jsval) list \<Rightarrow> (string \<times> jsval) list \<Rightarrow> request" where
  "request_of p q b = \<lparr>params_id = p, query = JObj q, body = JObj b, now = ''2024-01-01T00:00:00.000Z''\<rparr>"

text \<open>\<^verbatim>\<open>POST /todos {"title": "x"}\<close> and \<^verbatim>\<open>{"title": "y"}\<close>.\<close>

definition req_create_x :: request where
  "req_create_x = request_of [] [] [(''title'', JStr ''x'')]"

definition req_create_y :: request where
  "req_create_y = request_of [] [] [(''title'', JStr ''y'')]"

text \<open>\<^verbatim>\<open>POST /todos {"title": " "}\<close>: a title of one space.\<close>

definition req_create_blank :: request where
  "req_create_blank = request_of [] [] [(''title'', JStr '' '')]"

text \<open>\<^verbatim>\<open>POST /todos {"title": ""}\<close>.\<close>

definition req_create_empty :: request where
  "req_create_empty = request_of [] [] [(''title'', JStr [])]"

text \<open>\<^verbatim>\<open>POST /todos {"title": "x", "userId": "abc"}\<close>.\<close>

definition req_create_user_abc :: request where
  "req_create_user_abc = request_of [] [] [(''title'', JStr ''x''), (''userId'', JStr ''abc'')]"

text \<open>A request with path parameter \<^verbatim>\<open>:id\<close> and an empty body.\<close>

definition req_id :: "string \<Rightarrow> request" where
  "req_id p = request_of p [] []"

text \<open>
  \<^verbatim>\<open>GET /todos?limit=0\<close>, \<^verbatim>\<open>GET /todos?userId=0\<close>,
  \<^verbatim>\<open>GET /todos?userId=0&limit=2\<close> and \<^verbatim>\<open>GET /todos?userId=1&limit=2\<close>.
\<close>

definition req_list_limit0 :: request where
  "req_list_limit0 = request_of [] [(''limit'', JStr ''0'')] []"

definition req_list_user0 :: request where
  "req_list_user0 = request_of [] [(''userId'', JStr ''0'')] []"

definition req_list_user0_limit2 :: request where
  "req_list_user0_limit2 = request_of [] [(''userId'', JStr ''0''), (''limit'', JStr ''2'')] []"

definition req_list_user1_limit2 :: request where
  "req_list_user1_limit2 = request_of [] [(''userId'', JStr ''1''), (''limit'', JStr ''2'')] []"

text \<open>
  \<^verbatim>\<open>PUT\<close> or \<^verbatim>\<open>PATCH /todos/1 {"title": " hi ", "completed": 1, "userId": "7"}\<close>.
\<close>

definition req_update_1 :: request where
  "req_update_1 =
     request_of ''1'' []
       [(''title'', JStr '' hi ''), (''completed'', JNum (Num 1)), (''userId'', JStr ''7'')]"

text \<open>A body whose title is the number 5, sent to \<^verbatim>\<open>/todos\<close> or \<^verbatim>\<open>/todos/1\<close>.\<close>

definition req_title_5 :: request where
  "req_title_5 = request_of ''1'' [] [(''title'', JNum (Num 5))]"

text \<open>
  \<^verbatim>\<open>GET /todos?limit[toString]=1\<close>: the query parser makes the limit an object with the
  property \<^verbatim>\<open>toString\<close>.
\<close>

definition req_list_limit_object :: request where
  "req_list_limit_object = request_of [] [(''limit'', JObj [(''toString'', JStr ''1'')])] []"

text \<open>\<^verbatim>\<open>PUT /todos/1 {"userId": 1e21}\<close>.\<close>

definition req_update_user_1e21 :: request where
  "req_update_user_1e21 = request_of ''1'' [] [(''userId'', JNum (Num (10 ^ 21)))]"

text \<open>
  \<^verbatim>\<open>POST /todos\<close> with the title \<^verbatim>\<open>x\<close> and, as \<^verbatim>\<open>userId\<close>, the string of a one followed
  by 309 zeros.
\<close>

definition req_create_user_huge :: request where
  "req_create_user_huge =
     request_of [] []
       [(''title'', JStr ''x''), (''userId'', JStr (CHR ''1'' # replicate 309 (CHR ''0'')))]"

section \<open>Auxiliary facts\<close>

subsection \<open>Numbers\<close>

text \<open>Below \<open>2^53\<close> every integer is a double: the conversion changes nothing.\<close>

lemma bit_len_bound: "m < 2 ^ n \<Longrightarrow> bit_len m \<le> n"
proof (induction n arbitrary: m)
  case 0
  then show ?case by simp
next
  case (Suc n)
  show ?case
  proof (cases "m \<le> 0")
    case True
    then show ?thesis by simp
  next
    case False
    from Suc.prems have "m div 2 < 2 ^ n" by simp
    from Suc.IH [OF this] False show ?thesis by simp
  qed
qed

lemma round_double_exact: "\<bar>x\<bar> < 2 ^ 53 \<Longrightarrow> round_double x = Num x"
proof -
  assume small: "\<bar>x\<bar> < 2 ^ 53"
  then have "bit_len \<bar>x\<bar> \<le> 53" by (rule bit_len_bound)
  then have r: "round_53 \<bar>x\<bar> = \<bar>x\<bar>" by (simp add: round_53_def)
  have "(2::int) ^ 53 \<le> 2 ^ 1024" by (rule power_increasing) simp_all
  with small have "\<not> 2 ^ 1024 \<le> \<bar>x\<bar>" by linarith
  with r show ?thesis by (auto simp: round_double_def Let_def)
qed

text \<open>
  Above, \<^verbatim>\<open>parseInt\<close> rounds: \<open>2^53 + 1\<close> is read as \<open>2^53\<close>, and a one followed by 309
  zeros as \<^verbatim>\<open>Infinity\<close>. From \<open>10^21\<close> on a number is printed in exponent notation, of
  which \<^verbatim>\<open>parseInt\<close> reads the leading digit.
\<close>

lemma parseInt_str_rounds: "parseInt_str ''9007199254740993'' = Num 9007199254740992"
  by code_simp

lemma parseInt_str_overflows: "parseInt_str (CHR ''1'' # replicate 309 (CHR ''0'')) = PosInf"
  by code_simp

lemma parseInt_exponent_notation:
  "ToString (JNum (Num (10 ^ 21))) = Inr ''1e+21''"
  "parseInt (JNum (Num (10 ^ 21))) = Inr (Num 1)"
  by code_simp+

subsection \<open>Searching the array\<close>

lemma first_match_Some:
  "first_match P xs = Some i \<Longrightarrow> i < length xs \<and> P (xs ! i) \<and> (\<forall>j<i. \<not> P (xs ! j))"
proof (induction xs arbitrary: i)
  case Nil
  then show ?case by simp
next
  case (Cons x xs)
  show ?case
  proof (cases "P x")
    case True
    with Cons.prems show ?thesis by simp
  next
    case False
    with Cons.prems obtain k where k: "first_match P xs = Some k" "i = Suc k"
      by auto
    from Cons.IH [OF k(1)] False k(2) show ?thesis
      by (auto simp: less_Suc_eq_0_disj)
  qed
qed

lemma first_match_None: "first_match P xs = None \<longleftrightarrow> (\<forall>x \<in> set xs. \<not> P x)"
  by (induction xs) auto

lemma first_match_update:
  "first_match P xs = Some i \<Longrightarrow> P y \<Longrightarrow> first_match P (xs[i := y]) = Some i"
proof (induction xs arbitrary: i)
  case Nil
  then show ?case by simp
next
  case (Cons x xs)
  then show ?case by (cases "P x") (auto split: nat.splits)
qed

lemma first_match_unique:
  "distinct (map f xs) \<Longrightarrow> x \<in> set xs \<Longrightarrow> first_match (\<lambda>t. strict_eq (f t) v) xs = Some i
   \<Longrightarrow> strict_eq (f x) v \<Longrightarrow> xs ! i = x"
proof -
  assume d: "distinct (map f xs)" and x: "x \<in> set xs"
    and fm: "first_match (\<lambda>t. strict_eq (f t) v) xs = Some i" and e: "strict_eq (f x) v"
  from first_match_Some [OF fm] have i: "i < length xs" "strict_eq (f (xs ! i)) v" by auto
  from i(2) e have eq: "f (xs ! i) = f x" by (simp add: strict_eq_def)
  from x obtain j where j: "j < length xs" "xs ! j = x" by (auto simp: in_set_conv_nth)
  from d i(1) j eq have "i = j"
    by (metis distinct_conv_nth length_map nth_map)
  with j show ?thesis by simp
qed

lemma first_match_exists:
  "x \<in> set xs \<Longrightarrow> P x \<Longrightarrow> \<exists>i. first_match P xs = Some i"
  using first_match_None [of P xs] by (cases "first_match P xs") auto

subsection \<open>The next id\<close>

lemma Max_insert_max:
  "finite S \<Longrightarrow> Max (insert (max h n) S) = Max (insert h (insert n S))"
  by (cases "S = {}") (simp_all add: max.assoc)

lemma max_loop_Num:
  "max_loop (Num h) (map Num ns) = Num (Max (insert h (set ns)))"
proof (induction ns arbitrary: h)
  case Nil
  then show ?case by simp
next
  case (Cons n ns)
  have "max_loop (Num h) (map Num (n # ns)) = max_loop (Num (max h n)) (map Num ns)"
    by (simp add: max_def)
  also have "\<dots> = Num (Max (insert (max h n) (set ns)))"
    by (rule Cons.IH)
  also have "Max (insert (max h n) (set ns)) = Max (insert h (insert n (set ns)))"
    by (rule Max_insert_max) simp
  finally show ?case by simp
qed

lemma Math_max_ids:
  "Math_max (map Num ns @ [Num 0]) = Num (Max (insert 0 (set ns)))"
proof (cases ns)
  case Nil
  then show ?thesis by (simp add: Math_max_def)
next
  case (Cons n ms)
  have "Math_max (map Num ns @ [Num 0]) = max_loop (Num n) (map Num (ms @ [0]))"
    by (simp add: Math_max_def Cons)
  also have "\<dots> = Num (Max (insert n (set (ms @ [0]))))"
    by (rule max_loop_Num)
  finally show ?thesis by (simp add: Cons insert_commute)
qed


lemma ids_as_ints:
  "\<forall>t \<in> set todos. is_integer (id' t) \<Longrightarrow> map id' todos = map Num (map (\<lambda>t. int_of (id' t)) todos)"
proof (induction todos)
  case Nil
  then show ?case by simp
next
  case (Cons t ts)
  then show ?case by (cases "id' t") simp_all
qed

lemma new_id_integer:
  assumes "\<forall>t \<in> set todos. is_integer (id' t)"
  shows "js_add (Math_max (map id' todos @ [Num 0])) (Num 1) = Num (next_id_spec todos)"
proof -
  have "Math_max (map id' todos @ [Num 0]) =
        Num (Max (insert 0 (set (map (\<lambda>t. int_of (id' t)) todos))))"
    by (subst ids_as_ints [OF assms]) (rule Math_max_ids)
  moreover have "set (map (\<lambda>t. int_of (id' t)) todos) = int_of ` id' ` set todos"
    by auto
  ultimately show ?thesis by (simp add: next_id_spec_def)
qed

subsection \<open>Serving a request\<close>

lemma snd_serve: "snd (serve r req todos) = snd (handler r req todos)"
  by (cases "handler r req todos") (simp add: serve_def split: sum.splits)

lemma serve_Inr: "handler r req todos = (Inr res, todos1) \<Longrightarrow> serve r req todos = (res, todos1)"
  by (simp add: serve_def)

lemma serve_Inl:
  "handler r req todos = (Inl e, todos1) \<Longrightarrow> serve r req todos = (error_handler e req, todos1)"
  by (simp add: serve_def)

lemma status_serve:
  "status (fst (serve r req todos)) =
     (case fst (handler r req todos) of Inl e \<Rightarrow> 500 | Inr res \<Rightarrow> status res)"
  by (cases "handler r req todos")
     (simp add: serve_def error_handler_def split: sum.splits js_error.splits)

section \<open>Creating a record\<close>

lemma post_todos_string_title:
  assumes "get_prop (body req) ''title'' = JStr s" and "s \<noteq> []"
    and "parseInt (with_default (get_prop (body req) ''userId'') (JNum (Num 1))) = Inr u"
  shows "post_todos req todos =
           (let newTodo = \<lparr>userId = u,
                           id' = js_add (Math_max (map id' todos @ [Num 0])) (Num 1),
                           title = trim s,
                           completed = Boolean (with_default (get_prop (body req) ''completed'')
                                                  (JBool False))\<rparr>
            in (Inr (Response 201
                  (JObj [(''message'', JStr ''Todo created successfully''),
                         (''todo'', todo_json newTodo),
                         (''timestamp'', JStr (now req))])),
                todos @ [newTodo]))"
  using assms by (simp add: post_todos_def Let_def)

text \<open>
  A create is answered 201 exactly when the title is a non-empty string and
  \<^verbatim>\<open>parseInt(userId)\<close> does not throw.
\<close>

lemma post_todos_created_iff:
  "status (fst (serve POST_todos req todos)) = 201 \<longleftrightarrow>
     (\<exists>s u. get_prop (body req) ''title'' = JStr s \<and> s \<noteq> [] \<and>
            parseInt (with_default (get_prop (body req) ''userId'') (JNum (Num 1))) = Inr u)"
proof (cases "get_prop (body req) ''title''")
  case (JStr s)
  then show ?thesis
    by (simp add: status_serve post_todos_def Let_def split: sum.splits)
qed (simp_all add: status_serve post_todos_def Let_def split: sum.splits)

text \<open>
  Claim C5. In a store whose ids are integers, a create request with a non-empty string
  title (and a \<^verbatim>\<open>userId\<close> that \<^verbatim>\<open>parseInt\<close> can convert) succeeds with status 201:
  the new record gets the id \<^verbatim>\<open>max(existing ids, 0) + 1\<close>, it is appended after the
  existing records, which stay as they are, and the response carries it.
\<close>

theorem create_assigns_next_id:
  assumes "\<forall>t \<in> set todos. is_integer (id' t)"
    and "get_prop (body req) ''title'' = JStr s" and "s \<noteq> []"
    and "parseInt (with_default (get_prop (body req) ''userId'') (JNum (Num 1))) = Inr u"
  shows "serve POST_todos req todos =
           (let newTodo = \<lparr>userId = u, id' = Num (next_id_spec todos), title = trim s,
                           completed = Boolean (with_default (get_prop (body req) ''completed'')
                                                  (JBool False))\<rparr>
            in (Response 201
                  (JObj [(''message'', JStr ''Todo created successfully''),
                         (''todo'', todo_json newTodo),
                         (''timestamp'', JStr (now req))]),
                todos @ [newTodo]))"
proof -
  from assms(1) have "js_add (Math_max (map id' todos @ [Num 0])) (Num 1) = Num (next_id_spec todos)"
    by (rule new_id_integer)
  with post_todos_string_title [OF assms(2,3,4), of todos]
  show ?thesis by (simp add: serve_def Let_def)
qed

text \<open>On the initial array, \<^verbatim>\<open>POST /todos {"title": "x"}\<close> creates the record with id 6.\<close>

theorem create_assigns_next_id_witness:
  "next_id_spec todos_init = 6 \<and>
   serve POST_todos req_create_x todos_init =
     (Response 201
        (JObj [(''message'', JStr ''Todo created successfully''),
               (''todo'', todo_json \<lparr>userId = Num 1, id' = Num 6, title = ''x'',
                                      completed = False\<rparr>),
               (''timestamp'', JStr (now req_create_x))]),
      todos_init @ [\<lparr>userId = Num 1, id' = Num 6, title = ''x'', completed = False\<rparr>])"
proof -
  have ints: "\<forall>t \<in> set todos_init. is_integer (id' t)"
    by (simp add: todos_init_def)
  have title: "get_prop (body req_create_x) ''title'' = JStr ''x''"
    by code_simp
  have uid: "parseInt (with_default (get_prop (body req_create_x) ''userId'') (JNum (Num 1)))
               = Inr (Num 1)"
    by code_simp
  have compl: "Boolean (with_default (get_prop (body req_create_x) ''completed'') (JBool False))
               = False"
    by code_simp
  have next6: "next_id_spec todos_init = 6"
    by (simp add: next_id_spec_def todos_init_def)
  have tr: "trim ''x'' = ''x''"
    by code_simp
  from create_assigns_next_id [OF ints title _ uid] next6 compl tr
  show ?thesis by (simp add: Let_def)
qed

section \<open>Deleting a record\<close>

lemma delete_todo_found:
  assumes "findIndex (\<lambda>t. strict_eq (id' t) (parseInt_str (params_id req))) todos = Some i"
  shows "delete_todo req todos =
           (Inr (Response 200
              (JObj [(''message'', JStr ''Todo deleted successfully''),
                     (''deleted_todo'', todo_json (todos ! i)),
                     (''remaining_todos'', JNum (Num (int (length (splice1 todos i))))),
                     (''timestamp'', JStr (now req))])),
            splice1 todos i)"
  using assms by (simp add: delete_todo_def Let_def)

lemma delete_todo_absent:
  assumes "findIndex (\<lambda>t. strict_eq (id' t) (parseInt_str (params_id req))) todos = None"
  shows "delete_todo req todos =
           (Inr (Response 404
              (JObj [(''error'', JStr ''Todo not found''),
                     (''id'', JNum (parseInt_str (params_id req)))])),
            todos)"
  using assms by (simp add: delete_todo_def Let_def)

lemma set_splice1: "set (splice1 xs i) \<subseteq> set xs"
  by (auto simp: splice1_def dest: in_set_takeD in_set_dropD)

lemma length_splice1: "i < length xs \<Longrightarrow> length (splice1 xs i) + 1 = length xs"
  by (simp add: splice1_def)

lemma splice1_other_id:
  assumes "distinct (map f xs)" and "i < length xs" and "x \<in> set (splice1 xs i)"
  shows "f x \<noteq> f (xs ! i)"
proof -
  have "xs = take i xs @ xs ! i # drop (Suc i) xs"
    using assms(2) by (rule id_take_nth_drop)
  then have "distinct (map f (take i xs @ xs ! i # drop (Suc i) xs))"
    using assms(1) by simp
  then have "f (xs ! i) \<notin> f ` set (take i xs)" "f (xs ! i) \<notin> f ` set (drop (Suc i) xs)"
    by auto
  moreover from assms(3) have "f x \<in> f ` set (take i xs) \<or> f x \<in> f ` set (drop (Suc i) xs)"
    by (auto simp: splice1_def)
  ultimately show ?thesis by metis
qed

lemma distinct_splice1: "distinct (map f xs) \<Longrightarrow> distinct (map f (splice1 xs i))"
proof -
  assume d: "distinct (map f xs)"
  have "map f xs = take i (map f xs) @ drop i (map f xs)" by simp
  with d have "distinct (take i (map f xs) @ drop i (map f xs))" by simp
  then have "distinct (take i (map f xs))" "distinct (drop i (map f xs))"
    "set (take i (map f xs)) \<inter> set (drop i (map f xs)) = {}"
    by (simp_all only: distinct_append)
  moreover have "set (drop (Suc i) (map f xs)) \<subseteq> set (drop i (map f xs))"
    by (rule set_drop_subset_set_drop) simp
  moreover have "distinct (drop (Suc i) (map f xs))"
    using d by (rule distinct_drop)
  ultimately have "distinct (take i (map f xs) @ drop (Suc i) (map f xs))"
    by (simp only: distinct_append) blast
  then show ?thesis by (simp add: splice1_def take_map drop_map)
qed

subsection \<open>The ids of new records\<close>

lemma js_less_next_id:
  assumes "\<forall>t \<in> set todos. is_integer (id' t)" and "t \<in> set todos"
  shows "js_less (id' t) (Num (next_id_spec todos))"
proof -
  from assms obtain n where n: "id' t = Num n" by (cases "id' t") auto
  with assms(2) have "n \<in> int_of ` id' ` set todos" by force
  then have "n \<le> Max (insert 0 (int_of ` id' ` set todos))" by simp
  with n show ?thesis by (simp add: next_id_spec_def)
qed

lemma next_id_after_delete:
  assumes inv: "store_inv todos" and i: "i < length todos"
    and top: "\<forall>t \<in> set todos. \<not> js_less (id' (todos ! i)) (id' t)"
  shows "\<not> js_less (id' (todos ! i)) (Num (next_id_spec (splice1 todos i)))"
proof -
  from inv i obtain m where m: "id' (todos ! i) = Num m" "0 < m"
    by (cases "id' (todos ! i)") (auto simp: store_inv_def dest!: nth_mem)
  have "k \<le> m - 1" if "k \<in> int_of ` id' ` set (splice1 todos i)" for k
  proof -
    from that obtain t where t: "t \<in> set (splice1 todos i)" "k = int_of (id' t)" by auto
    from t(1) set_splice1 [of todos i] have mem: "t \<in> set todos" by auto
    with inv obtain n where n: "id' t = Num n" by (cases "id' t") (auto simp: store_inv_def)
    from inv i t(1) have "id' t \<noteq> id' (todos ! i)"
      by (intro splice1_other_id) (auto simp: store_inv_def)
    moreover from top mem m n have "\<not> m < n" by auto
    ultimately show ?thesis using m n t(2) by simp
  qed
  then have "Max (insert 0 (int_of ` id' ` set (splice1 todos i))) \<le> m - 1"
    using m(2) by (subst Max_le_iff) auto
  then have "next_id_spec (splice1 todos i) \<le> m"
    unfolding next_id_spec_def by linarith
  with m(1) show ?thesis by simp
qed

lemma store_inv_splice1: "store_inv todos \<Longrightarrow> store_inv (splice1 todos i)"
  using set_splice1 [of todos i] by (auto simp: store_inv_def distinct_splice1)

section \<open>Ids of created records and deleted ids\<close>

text \<open>
  Claim C1, as the code has it. In a store that satisfies the invariant, a successful
  create appends a record whose id is strictly greater than every id in the store. When
  the record with the highest id is deleted first, the id of the record created next is
  strictly greater than every id that remains, and it is not greater than the deleted id:
  the id of a deleted record can be assigned again.
\<close>

theorem create_id_above_stored_ids:
  assumes inv: "store_inv todos"
    and title: "get_prop (body req) ''title'' = JStr s" "s \<noteq> []"
    and uid: "parseInt (with_default (get_prop (body req) ''userId'') (JNum (Num 1))) = Inr u"
  shows "(\<exists>newTodo. snd (serve POST_todos req todos) = todos @ [newTodo] \<and>
            get_prop (json (fst (serve POST_todos req todos))) ''todo'' = todo_json newTodo \<and>
            (\<forall>t \<in> set todos. js_less (id' t) (id' newTodo))) \<and>
         (\<forall>reqd i.
            findIndex (\<lambda>t. strict_eq (id' t) (parseInt_str (params_id reqd))) todos = Some i \<and>
            (\<forall>t \<in> set todos. \<not> js_less (id' (todos ! i)) (id' t)) \<longrightarrow>
            (\<exists>newTodo.
               snd (serve POST_todos req (snd (serve DELETE_todo reqd todos))) =
                 splice1 todos i @ [newTodo] \<and>
               (\<forall>t \<in> set (splice1 todos i). js_less (id' t) (id' newTodo)) \<and>
               \<not> js_less (id' (todos ! i)) (id' newTodo)))"
proof (intro conjI allI impI)
  from inv have ints: "\<forall>t \<in> set todos. is_integer (id' t)"
    by (simp add: store_inv_def)
  define newTodo where
    "newTodo = \<lparr>userId = u, id' = Num (next_id_spec todos), title = trim s,
                 completed = Boolean (with_default (get_prop (body req) ''completed'')
                                        (JBool False))\<rparr>"
  have post: "post_todos req todos =
      (Inr (Response 201
         (JObj [(''message'', JStr ''Todo created successfully''),
                (''todo'', todo_json newTodo),
                (''timestamp'', JStr (now req))])),
       todos @ [newTodo])"
    using post_todos_string_title [OF title uid, of todos] new_id_integer [OF ints]
    by (simp add: Let_def newTodo_def)
  have "\<forall>t \<in> set todos. js_less (id' t) (id' newTodo)"
    using js_less_next_id [OF ints] by (simp add: newTodo_def)
  with post
  show "\<exists>newTodo. snd (serve POST_todos req todos) = todos @ [newTodo] \<and>
          get_prop (json (fst (serve POST_todos req todos))) ''todo'' = todo_json newTodo \<and>
          (\<forall>t \<in> set todos. js_less (id' t) (id' newTodo))"
    by (intro exI [of _ newTodo]) (simp add: serve_def get_prop_def)
next
  fix reqd :: request and i
  assume a: "findIndex (\<lambda>t. strict_eq (id' t) (parseInt_str (params_id reqd))) todos = Some i \<and>
             (\<forall>t \<in> set todos. \<not> js_less (id' (todos ! i)) (id' t))"
  then have i: "i < length todos"
    using first_match_Some [of "\<lambda>t. strict_eq (id' t) (parseInt_str (params_id reqd))" todos i]
    by (simp add: findIndex_def)
  let ?rest = "splice1 todos i"
  from a have del: "snd (delete_todo reqd todos) = ?rest"
    by (simp add: delete_todo_found)
  from inv have inv': "store_inv ?rest" by (rule store_inv_splice1)
  then have ints': "\<forall>t \<in> set ?rest. is_integer (id' t)"
    by (simp add: store_inv_def)
  define newTodo where
    "newTodo = \<lparr>userId = u, id' = Num (next_id_spec ?rest), title = trim s,
                 completed = Boolean (with_default (get_prop (body req) ''completed'')
                                        (JBool False))\<rparr>"
  have post: "snd (post_todos req ?rest) = ?rest @ [newTodo]"
    using post_todos_string_title [OF title uid, of ?rest] new_id_integer [OF ints']
    by (simp add: Let_def newTodo_def)
  have above: "\<forall>t \<in> set ?rest. js_less (id' t) (id' newTodo)"
    using js_less_next_id [OF ints'] by (simp add: newTodo_def)
  have below: "\<not> js_less (id' (todos ! i)) (id' newTodo)"
    using next_id_after_delete [OF inv i] a by (simp add: newTodo_def)
  have "snd (serve POST_todos req (snd (serve DELETE_todo reqd todos))) = ?rest @ [newTodo]"
    using post by (simp add: snd_serve del)
  with above below
  show "\<exists>newTodo.
          snd (serve POST_todos req (snd (serve DELETE_todo reqd todos))) = ?rest @ [newTodo] \<and>
          (\<forall>t \<in> set ?rest. js_less (id' t) (id' newTodo)) \<and>
          \<not> js_less (id' (todos ! i)) (id' newTodo)"
    by blast
qed

text \<open>
  On the initial array: a create request gets an id above the five stored ones; and after
  \<^verbatim>\<open>DELETE /todos/5\<close>, the record with the highest id, the next create is not given an
  id above 5.
\<close>

theorem create_id_above_stored_ids_witness:
  "store_inv todos_init \<and>
   findIndex (\<lambda>t. strict_eq (id' t) (parseInt_str (params_id (req_id ''5'')))) todos_init = Some 4 \<and>
   js_less (id' (last todos_init)) (id' (last (snd (serve POST_todos req_create_x todos_init)))) \<and>
   \<not> js_less (id' (todos_init ! 4))
       (id' (last (snd (serve POST_todos req_create_x
                          (snd (serve DELETE_todo (req_id ''5'') todos_init))))))"
proof -
  have inv: "store_inv todos_init"
    by (simp add: store_inv_def todos_init_def)
  have title: "get_prop (body req_create_x) ''title'' = JStr ''x''"
    by code_simp
  have uid: "parseInt (with_default (get_prop (body req_create_x) ''userId'') (JNum (Num 1)))
               = Inr (Num 1)"
    by code_simp
  have found: "findIndex (\<lambda>t. strict_eq (id' t) (parseInt_str (params_id (req_id ''5''))))
                 todos_init = Some 4"
    by code_simp
  have top: "\<forall>t \<in> set todos_init. \<not> js_less (id' (todos_init ! 4)) (id' t)"
    by (simp add: todos_init_def)
  note inst = create_id_above_stored_ids [OF inv title _ uid]
  have "''x'' \<noteq> []" by simp
  from inst [OF this] obtain newTodo where
    n: "snd (serve POST_todos req_create_x todos_init) = todos_init @ [newTodo]"
       "\<forall>t \<in> set todos_init. js_less (id' t) (id' newTodo)"
    by blast
  have "last todos_init \<in> set todos_init"
    by (simp add: todos_init_def)
  with n have first: "js_less (id' (last todos_init))
                        (id' (last (snd (serve POST_todos req_create_x todos_init))))"
    by simp
  from inst [OF \<open>''x'' \<noteq> []\<close>] found top obtain newTodo2 where
    m: "snd (serve POST_todos req_create_x (snd (serve DELETE_todo (req_id ''5'') todos_init))) =
          splice1 todos_init 4 @ [newTodo2]"
       "\<not> js_less (id' (todos_init ! 4)) (id' newTodo2)"
    by blast
  then have second: "\<not> js_less (id' (todos_init ! 4))
       (id' (last (snd (serve POST_todos req_create_x
                          (snd (serve DELETE_todo (req_id ''5'') todos_init))))))"
    by simp
  from inv found first second show ?thesis by blast
qed

text \<open>
  The claim as stated fails. On the initial array, \<^verbatim>\<open>POST /todos {"title": "x"}\<close>
  creates id 6; \<^verbatim>\<open>DELETE /todos/6\<close> removes that record; \<^verbatim>\<open>POST /todos {"title": "y"}\<close>
  then creates a record with id 6 again, the id that was just deleted.
\<close>

theorem deleted_id_reused:
  "serve POST_todos req_create_x todos_init =
     (Response 201
        (JObj [(''message'', JStr ''Todo created successfully''),
               (''todo'', JObj [(''userId'', JNum (Num 1)), (''id'', JNum (Num 6)),
                                (''title'', JStr ''x''), (''completed'', JBool False)]),
               (''timestamp'', JStr ''2024-01-01T00:00:00.000Z'')]),
      todos_init @ [\<lparr>userId = Num 1, id' = Num 6, title = ''x'', completed = False\<rparr>]) \<and>
   serve DELETE_todo (req_id ''6'')
       (todos_init @ [\<lparr>userId = Num 1, id' = Num 6, title = ''x'', completed = False\<rparr>]) =
     (Response 200
        (JObj [(''message'', JStr ''Todo deleted successfully''),
               (''deleted_todo'', JObj [(''userId'', JNum (Num 1)), (''id'', JNum (Num 6)),
                                        (''title'', JStr ''x''), (''completed'', JBool False)]),
               (''remaining_todos'', JNum (Num 5)),
               (''timestamp'', JStr ''2024-01-01T00:00:00.000Z'')]),
      todos_init) \<and>
   serve POST_todos req_create_y todos_init =
     (Response 201
        (JObj [(''message'', JStr ''Todo created successfully''),
               (''todo'', JObj [(''userId'', JNum (Num 1)), (''id'', JNum (Num 6)),
                                (''title'', JStr ''y''), (''completed'', JBool False)]),
               (''timestamp'', JStr ''2024-01-01T00:00:00.000Z'')]),
      todos_init @ [\<lparr>userId = Num 1, id' = Num 6, title = ''y'', completed = False\<rparr>])"
  by code_simp

section \<open>Validation of the title\<close>

text \<open>
  Claim C2, as the code has it. The handler rejects a title that is falsy: the empty
  string, or an absent, \<^verbatim>\<open>null\<close>, \<^verbatim>\<open>false\<close> or zero title. Then the response is 400
  with the request body echoed in \<^verbatim>\<open>received_body\<close>, and the array is unchanged. The
  test is made before the title is trimmed.
\<close>

theorem create_rejects_falsy_title:
  assumes "\<not> Boolean (get_prop (body req) ''title'')"
  shows "serve POST_todos req todos =
           (Response 400
              (JObj [(''error'', JStr ''Title is required''),
                     (''received_body'', body req)]),
            todos)"
  using assms by (simp add: serve_def post_todos_def Let_def)

text \<open>\<^verbatim>\<open>POST /todos {"title": ""}\<close> on the initial array.\<close>

theorem create_rejects_falsy_title_witness:
  "get_prop (body req_create_empty) ''title'' = JStr [] \<and>
   serve POST_todos req_create_empty todos_init =
     (Response 400
        (JObj [(''error'', JStr ''Title is required''),
               (''received_body'', JObj [(''title'', JStr [])])]),
      todos_init)"
proof -
  have title: "get_prop (body req_create_empty) ''title'' = JStr []"
    by code_simp
  then have "\<not> Boolean (get_prop (body req_create_empty) ''title'')"
    by simp
  from create_rejects_falsy_title [OF this, of todos_init] title
  show ?thesis by (simp add: req_create_empty_def request_of_def)
qed

text \<open>
  The claim as stated fails for a title of white space only: \<^verbatim>\<open>POST /todos {"title": " "}\<close>
  on the initial array is answered 201, and a sixth record, with the empty title, is in
  the array afterwards.
\<close>

theorem blank_title_is_created:
  "serve POST_todos req_create_blank todos_init =
     (Response 201
        (JObj [(''message'', JStr ''Todo created successfully''),
               (''todo'', JObj [(''userId'', JNum (Num 1)), (''id'', JNum (Num 6)),
                                (''title'', JStr []), (''completed'', JBool False)]),
               (''timestamp'', JStr ''2024-01-01T00:00:00.000Z'')]),
      todos_init @ [\<lparr>userId = Num 1, id' = Num 6, title = [], completed = False\<rparr>]) \<and>
   length (snd (serve POST_todos req_create_blank todos_init)) = 6 \<and>
   length todos_init = 5"
  by code_simp

section \<open>Listing the records\<close>

lemma parseInt_JStr: "parseInt (JStr l) = Inr (parseInt_str l)"
  by (simp add: parseInt_def)

lemma parseInt_JUndefined: "parseInt JUndefined = Inr NaN"
  by code_simp

lemma parseInt_str_Nil: "parseInt_str [] = NaN"
  by code_simp

lemma strict_eq_Num: "strict_eq a (Num k) \<longleftrightarrow> a = Num k"
  by (auto simp: strict_eq_def)

lemma slice0_length: "length xs \<le> n \<Longrightarrow> slice0 xs (Num (int n)) = xs"
  by (simp add: slice0_def)

lemma slice0_nat: "slice0 xs (Num (int n)) = take n xs"
  by (simp add: slice0_def min_def)

lemma slice0_take: "\<exists>m. slice0 xs e = take m xs"
proof (cases e)
  case (Num n)
  then show ?thesis by (auto simp: slice0_def)
next
  case PosInf
  then have "slice0 xs e = take (length xs) xs" by (simp add: slice0_def)
  then show ?thesis by blast
qed (auto simp: slice0_def intro: exI [of _ 0])

lemma subseq_take_self: "subseq (take m xs) xs"
  by (rule prefix_imp_subseq) (rule take_is_prefix)

lemma subseq_slice0: "subseq (slice0 xs e) xs"
  using slice0_take [of xs e] subseq_take_self by metis

text \<open>
  A value that \<^verbatim>\<open>parseInt\<close> converts to an integer other than zero is truthy, so the
  test \<^verbatim>\<open>req.query.userId ? ... : null\<close> lets it pass.
\<close>

lemma parseInt_falsy:
  "parseInt JNull = Inr NaN" "parseInt (JBool b) = Inr NaN"
  "parseInt (JNum NaN) = Inr NaN" "parseInt (JNum (Num 0)) = Inr (Num 0)"
  "parseInt (JStr []) = Inr NaN"
proof -
  show "parseInt JNull = Inr NaN" by code_simp
  have "parseInt (JBool True) = Inr NaN" "parseInt (JBool False) = Inr NaN" by code_simp+
  then show "parseInt (JBool b) = Inr NaN" by (cases b) simp_all
  show "parseInt (JNum NaN) = Inr NaN" by code_simp
  show "parseInt (JNum (Num 0)) = Inr (Num 0)" by code_simp
  show "parseInt (JStr []) = Inr NaN" by code_simp
qed

lemma parseInt_nonzero_truthy:
  assumes "parseInt v = Inr (Num k)" and "k \<noteq> 0"
  shows "Boolean v"
proof (cases v)
  case (JNum n)
  with assms show ?thesis by (cases n) (auto simp: parseInt_falsy)
next
  case (JStr s)
  with assms show ?thesis by (cases s) (auto simp: parseInt_falsy)
qed (use assms in \<open>auto simp: parseInt_falsy parseInt_JUndefined\<close>)

text \<open>
  Only an array or an object can make \<^verbatim>\<open>parseInt\<close> throw, and those are truthy.
\<close>

lemma parseInt_throws_truthy: "parseInt v = Inl e \<Longrightarrow> Boolean v"
  by (cases v) (simp_all add: parseInt_def)

text \<open>The handler when \<^verbatim>\<open>parseInt\<close> converts both parameters.\<close>

lemma get_todos_converted:
  assumes pl: "parseInt (get_prop (query req) ''limit'') = Inr l"
    and pu: "parseInt (get_prop (query req) ''userId'') = Inr u"
  shows "\<exists>filtered result.
           serve GET_todos req todos = (Response 200 (JArr (map todo_json result)), todos) \<and>
           subseq result todos \<and>
           (get_prop (query req) ''userId'' = JUndefined \<longrightarrow> filtered = todos) \<and>
           (\<forall>k. u = Num k \<and> k \<noteq> 0 \<longrightarrow> filtered = filter (\<lambda>t. userId t = Num k) todos) \<and>
           (\<not> truthy_num u \<longrightarrow> filtered = todos) \<and>
           (get_prop (query req) ''limit'' = JUndefined \<longrightarrow> result = filtered) \<and>
           (\<forall>n. l = Num (int n) \<and> 0 < n \<longrightarrow> result = take n filtered) \<and>
           (\<not> truthy_num l \<longrightarrow> result = filtered)"
proof -
  let ?uq = "get_prop (query req) ''userId''"
  let ?lq = "get_prop (query req) ''limit''"
  define limit where "limit = js_or l (Num (int (length todos)))"
  define filtered where
    "filtered = (if Boolean ?uq \<and> truthy_num u
                 then filter (\<lambda>t. strict_eq (userId t) u) todos else todos)"
  define result where "result = slice0 filtered limit"
  have code: "get_todos req todos =
                (Inr (Response 200 (JArr (map todo_json result))), todos)"
    unfolding get_todos_def pl pu Let_def result_def filtered_def limit_def
    by simp
  have len: "length filtered \<le> length todos"
    by (simp add: filtered_def)
  have full: "result = filtered" if "\<not> truthy_num l"
    using that len by (simp add: result_def limit_def js_or_def slice0_length)
  have order: "subseq result todos"
  proof -
    have "subseq result filtered" unfolding result_def by (rule subseq_slice0)
    moreover have "subseq filtered todos" by (simp add: filtered_def)
    ultimately show ?thesis by (rule subseq_order.trans)
  qed
  have f_absent: "filtered = todos" if "?uq = JUndefined"
    using that by (simp add: filtered_def)
  have f_some: "filtered = filter (\<lambda>t. userId t = Num k) todos" if "u = Num k \<and> k \<noteq> 0" for k
  proof -
    from that pu have "Boolean ?uq" by (auto intro: parseInt_nonzero_truthy)
    with that show ?thesis by (simp add: filtered_def strict_eq_Num)
  qed
  have f_zero: "filtered = todos" if "\<not> truthy_num u"
    using that by (simp add: filtered_def)
  have l_absent: "result = filtered" if "?lq = JUndefined"
  proof -
    from that pl have "l = NaN" by (simp add: parseInt_JUndefined)
    then show ?thesis by (simp add: full)
  qed
  have l_some: "result = take n filtered" if "l = Num (int n) \<and> 0 < n" for n
    using that by (simp add: result_def limit_def js_or_def slice0_nat)
  from code have "serve GET_todos req todos =
                    (Response 200 (JArr (map todo_json result)), todos)"
    by (simp add: serve_def)
  with order f_absent f_some f_zero l_absent l_some full show ?thesis
    by blast
qed

text \<open>
  Claim C3, as the code has it. A list request with a \<^verbatim>\<open>limit\<close> or \<^verbatim>\<open>userId\<close> parameter
  that \<^verbatim>\<open>parseInt\<close> cannot convert (an object with a property \<^verbatim>\<open>toString\<close>) is answered
  500. Every other list request, so every one whose parameters are absent, strings or
  arrays of strings, is answered 200 with \<open>result\<close>, a truncation of \<open>filtered\<close>, and the
  array is unchanged. \<open>result\<close> keeps the insertion order: it is a subsequence of the
  array. Whatever the limit, \<open>filtered\<close> is the whole array when no filter is supplied,
  and exactly the records whose \<^verbatim>\<open>userId\<close> is \<open>k\<close> when the filter parses to an integer
  \<open>k\<close> other than zero. Whatever the filter, \<open>result\<close> is all of \<open>filtered\<close> when no limit
  is supplied, and its first \<open>n\<close> elements when the limit parses to a positive integer
  \<open>n\<close>. A filter or limit whose parsed value is zero or \<^verbatim>\<open>NaN\<close> is ignored.
\<close>

theorem list_filters_and_truncates:
  "case parseInt (get_prop (query req) ''limit'') of
     Inl e \<Rightarrow> serve GET_todos req todos = (error_handler e req, todos)
   | Inr l \<Rightarrow>
       (case parseInt (get_prop (query req) ''userId'') of
          Inl e \<Rightarrow> serve GET_todos req todos = (error_handler e req, todos)
        | Inr u \<Rightarrow>
            (\<exists>filtered result.
               serve GET_todos req todos = (Response 200 (JArr (map todo_json result)), todos) \<and>
               subseq result todos \<and>
               (get_prop (query req) ''userId'' = JUndefined \<longrightarrow> filtered = todos) \<and>
               (\<forall>k. u = Num k \<and> k \<noteq> 0 \<longrightarrow>
                    filtered = filter (\<lambda>t. userId t = Num k) todos) \<and>
               (\<not> truthy_num u \<longrightarrow> filtered = todos) \<and>
               (get_prop (query req) ''limit'' = JUndefined \<longrightarrow> result = filtered) \<and>
               (\<forall>n. l = Num (int n) \<and> 0 < n \<longrightarrow> result = take n filtered) \<and>
               (\<not> truthy_num l \<longrightarrow> result = filtered)))"
proof (cases "parseInt (get_prop (query req) ''limit'')")
  case (Inl e)
  then have "get_todos req todos = (Inl e, todos)"
    by (simp add: get_todos_def)
  with Inl show ?thesis by (simp add: serve_def)
next
  case l: (Inr l)
  show ?thesis
  proof (cases "parseInt (get_prop (query req) ''userId'')")
    case (Inl e)
    then have "Boolean (get_prop (query req) ''userId'')"
      by (rule parseInt_throws_truthy)
    with l Inl have "get_todos req todos = (Inl e, todos)"
      by (simp add: get_todos_def Let_def)
    with l Inl show ?thesis by (simp add: serve_def)
  next
    case (Inr u)
    from get_todos_converted [OF l Inr, of todos] l Inr show ?thesis
      by simp
  qed
qed

text \<open>
  On the initial array: \<^verbatim>\<open>GET /todos?userId=1&limit=2\<close> returns the first two records
  whose \<^verbatim>\<open>userId\<close> is 1, \<^verbatim>\<open>GET /todos?userId=0&limit=2\<close> returns two records, in the
  array's order, and \<^verbatim>\<open>GET /todos?limit[toString]=1\<close> is answered by the error handler.
\<close>

theorem list_filters_and_truncates_witness:
  "parseInt (get_prop (query req_list_user1_limit2) ''limit'') = Inr (Num 2) \<and>
   parseInt (get_prop (query req_list_user1_limit2) ''userId'') = Inr (Num 1) \<and>
   serve GET_todos req_list_user1_limit2 todos_init =
     (Response 200
        (JArr (map todo_json
           [\<lparr>userId = Num 1, id' = Num 1, title = ''delectus aut autem'', completed = False\<rparr>,
            \<lparr>userId = Num 1, id' = Num 2, title = ''quis ut nam facilis'', completed = True\<rparr>])),
      todos_init) \<and>
   parseInt (get_prop (query req_list_user0_limit2) ''limit'') = Inr (Num 2) \<and>
   parseInt (get_prop (query req_list_user0_limit2) ''userId'') = Inr (Num 0) \<and>
   (\<exists>result. serve GET_todos req_list_user0_limit2 todos_init =
               (Response 200 (JArr (map todo_json result)), todos_init) \<and>
             subseq result todos_init \<and> length result = 2) \<and>
   serve GET_todos req_list_limit_object todos_init =
     (error_handler (TypeError ''Cannot convert object to primitive value'')
        req_list_limit_object, todos_init)"
proof -
  have po: "parseInt (get_prop (query req_list_limit_object) ''limit'') =
              Inl (TypeError ''Cannot convert object to primitive value'')"
    by code_simp
  note list_filters_and_truncates [of req_list_limit_object todos_init, unfolded po sum.case]
  then have obj: "serve GET_todos req_list_limit_object todos_init =
     (error_handler (TypeError ''Cannot convert object to primitive value'')
        req_list_limit_object, todos_init)" .
  have pl: "parseInt (get_prop (query req_list_user1_limit2) ''limit'') = Inr (Num 2)"
    by code_simp
  have pu: "parseInt (get_prop (query req_list_user1_limit2) ''userId'') = Inr (Num 1)"
    by code_simp
  have two: "Num 2 = Num (int 2) \<and> (0::nat) < 2"
    by simp
  have spec: "take 2 (filter (\<lambda>t. userId t = Num 1) todos_init) =
      [\<lparr>userId = Num 1, id' = Num 1, title = ''delectus aut autem'', completed = False\<rparr>,
       \<lparr>userId = Num 1, id' = Num 2, title = ''quis ut nam facilis'', completed = True\<rparr>]"
    by (simp add: todos_init_def)
  from list_filters_and_truncates [of req_list_user1_limit2 todos_init, unfolded pl pu sum.case]
  obtain filtered result where
    r: "serve GET_todos req_list_user1_limit2 todos_init =
          (Response 200 (JArr (map todo_json result)), todos_init)"
    and f: "\<forall>k. Num 1 = Num k \<and> k \<noteq> 0 \<longrightarrow> filtered = filter (\<lambda>t. userId t = Num k) todos_init"
    and t: "\<forall>n. Num 2 = Num (int n) \<and> 0 < n \<longrightarrow> result = take n filtered"
    by blast
  from f have "filtered = filter (\<lambda>t. userId t = Num 1) todos_init" by simp
  moreover from t two have "result = take 2 filtered" by blast
  ultimately have one: "serve GET_todos req_list_user1_limit2 todos_init =
     (Response 200
        (JArr (map todo_json
           [\<lparr>userId = Num 1, id' = Num 1, title = ''delectus aut autem'', completed = False\<rparr>,
            \<lparr>userId = Num 1, id' = Num 2, title = ''quis ut nam facilis'', completed = True\<rparr>])),
      todos_init)"
    using r spec by simp
  have pl0: "parseInt (get_prop (query req_list_user0_limit2) ''limit'') = Inr (Num 2)"
    by code_simp
  have pu0: "parseInt (get_prop (query req_list_user0_limit2) ''userId'') = Inr (Num 0)"
    by code_simp
  from list_filters_and_truncates [of req_list_user0_limit2 todos_init, unfolded pl0 pu0 sum.case]
  obtain filtered0 result0 where
    r0: "serve GET_todos req_list_user0_limit2 todos_init =
           (Response 200 (JArr (map todo_json result0)), todos_init)"
    and o0: "subseq result0 todos_init"
    and f0: "\<not> truthy_num (Num 0) \<longrightarrow> filtered0 = todos_init"
    and t0: "\<forall>n. Num 2 = Num (int n) \<and> 0 < n \<longrightarrow> result0 = take n filtered0"
    by blast
  from f0 have "filtered0 = todos_init" by simp
  moreover from t0 two have "result0 = take 2 filtered0" by blast
  ultimately have "length result0 = 2" by (simp add: todos_init_def)
  with r0 o0 have zero: "\<exists>result. serve GET_todos req_list_user0_limit2 todos_init =
               (Response 200 (JArr (map todo_json result)), todos_init) \<and>
             subseq result todos_init \<and> length result = 2"
    by blast
  from pl pu one pl0 pu0 zero obj show ?thesis by blast
qed

text \<open>
  The claim as stated fails when the parsed value is zero. \<^verbatim>\<open>GET /todos?limit=0\<close> on the
  initial array returns all five records, not the first zero of them; and
  \<^verbatim>\<open>GET /todos?userId=0\<close> returns all five records, none of which has \<^verbatim>\<open>userId\<close> 0.
\<close>

theorem list_zero_limit_or_filter_ignored:
  "get_prop (query req_list_limit0) ''limit'' = JStr ''0'' \<and>
   parseInt_str ''0'' = Num 0 \<and>
   json (fst (serve GET_todos req_list_limit0 todos_init)) = JArr (map todo_json todos_init) \<and>
   list_spec None (Some 0) todos_init = [] \<and>
   get_prop (query req_list_user0) ''userId'' = JStr ''0'' \<and>
   json (fst (serve GET_todos req_list_user0 todos_init)) = JArr (map todo_json todos_init) \<and>
   list_spec (Some 0) None todos_init = [] \<and>
   length todos_init = 5"
  by code_simp

section \<open>Updating a record: \<^verbatim>\<open>PUT\<close> and \<^verbatim>\<open>PATCH\<close>\<close>

text \<open>
  Both handlers, once the record is found in slot \<open>i\<close>, as one case analysis on the three
  assignments: \<open>t1\<close>, \<open>t2\<close>, \<open>t3\<close> are the record after the title, the \<^verbatim>\<open>completed\<close> and the
  \<^verbatim>\<open>userId\<close> assignment.
\<close>

lemma put_todo_found:
  assumes fm: "first_match (\<lambda>t. strict_eq (id' t) (parseInt_str (params_id req))) todos = Some i"
  shows "snd (put_todo req todos) =
     (let titleB = get_prop (body req) ''title'';
          completedB = get_prop (body req) ''completed'';
          userIdB = get_prop (body req) ''userId''
      in case (if titleB \<noteq> JUndefined then call_trim titleB else Inr (title (todos ! i))) of
           Inl e \<Rightarrow> todos
         | Inr v \<Rightarrow>
             let t2 = (todos ! i)\<lparr>title := v,
                        completed := (if completedB \<noteq> JUndefined then Boolean completedB
                                      else completed (todos ! i))\<rparr>
             in case (if userIdB \<noteq> JUndefined then parseInt userIdB else Inr (userId t2)) of
                  Inl e \<Rightarrow> todos[i := t2]
                | Inr u \<Rightarrow> todos[i := t2\<lparr>userId := u\<rparr>])"
proof -
  from first_match_Some [OF fm] have i: "i < length todos" by simp
  show ?thesis
    using i fm
    by (simp add: put_todo_def findIndex_def Let_def list_update_same_conv
        split: sum.splits)
qed

lemma patch_todo_found:
  assumes fm: "first_match (\<lambda>t. strict_eq (id' t) (parseInt_str (params_id req))) todos = Some i"
  shows "snd (patch_todo req todos) =
     (let titleB = get_prop (body req) ''title'';
          completedB = get_prop (body req) ''completed'';
          userIdB = get_prop (body req) ''userId''
      in case (if titleB \<noteq> JUndefined then call_trim titleB else Inr (title (todos ! i))) of
           Inl e \<Rightarrow> todos
         | Inr v \<Rightarrow>
             let t2 = (todos ! i)\<lparr>title := v,
                        completed := (if completedB \<noteq> JUndefined then Boolean completedB
                                      else completed (todos ! i))\<rparr>
             in case (if userIdB \<noteq> JUndefined then parseInt userIdB else Inr (userId t2)) of
                  Inl e \<Rightarrow> todos[i := t2]
                | Inr u \<Rightarrow> todos[i := t2\<lparr>userId := u\<rparr>])"
proof -
  from first_match_Some [OF fm] have i: "i < length todos" by simp
  show ?thesis
    using i fm
    by (simp add: patch_todo_def find_js_def Let_def list_update_same_conv
        split: sum.splits)
qed

lemma put_todo_status:
  "(case fst (put_todo req todos) of Inl e \<Rightarrow> 500 | Inr res \<Rightarrow> status res) =
     (case first_match (\<lambda>t. strict_eq (id' t) (parseInt_str (params_id req))) todos of
        None \<Rightarrow> 404
      | Some i \<Rightarrow>
          (case (if get_prop (body req) ''title'' \<noteq> JUndefined
                 then call_trim (get_prop (body req) ''title'') else Inr []) of
             Inl e \<Rightarrow> 500
           | Inr v \<Rightarrow>
               (case (if get_prop (body req) ''userId'' \<noteq> JUndefined
                      then parseInt (get_prop (body req) ''userId'') else Inr NaN) of
                  Inl e \<Rightarrow> 500
                | Inr u \<Rightarrow> 200)))"
  by (simp add: put_todo_def findIndex_def Let_def split: option.splits sum.splits)

lemma patch_todo_status:
  "(case fst (patch_todo req todos) of Inl e \<Rightarrow> 500 | Inr res \<Rightarrow> status res) =
     (case first_match (\<lambda>t. strict_eq (id' t) (parseInt_str (params_id req))) todos of
        None \<Rightarrow> 404
      | Some i \<Rightarrow>
          (case (if get_prop (body req) ''title'' \<noteq> JUndefined
                 then call_trim (get_prop (body req) ''title'') else Inr []) of
             Inl e \<Rightarrow> 500
           | Inr v \<Rightarrow>
               (case (if get_prop (body req) ''userId'' \<noteq> JUndefined
                      then parseInt (get_prop (body req) ''userId'') else Inr NaN) of
                  Inl e \<Rightarrow> 500
                | Inr u \<Rightarrow> 200)))"
  by (simp add: patch_todo_def find_js_def Let_def split: option.splits sum.splits)

lemma put_todo_absent:
  "first_match (\<lambda>t. strict_eq (id' t) (parseInt_str (params_id req))) todos = None \<Longrightarrow>
   snd (put_todo req todos) = todos"
  by (simp add: put_todo_def findIndex_def)

lemma patch_todo_absent:
  "first_match (\<lambda>t. strict_eq (id' t) (parseInt_str (params_id req))) todos = None \<Longrightarrow>
   snd (patch_todo req todos) = todos"
  by (simp add: patch_todo_def find_js_def)

text \<open>
  Claim C4. For every array, path parameter and body, \<^verbatim>\<open>PUT /todos/:id\<close> and
  \<^verbatim>\<open>PATCH /todos/:id\<close> leave the same array behind and answer with the same status. When
  the record is found, the title is absent or a string, and \<^verbatim>\<open>parseInt\<close> converts the
  \<^verbatim>\<open>userId\<close>, that array is the old one with only the supplied fields of the record
  overwritten: the trimmed title, \<^verbatim>\<open>Boolean(completed)\<close> and \<^verbatim>\<open>parseInt(userId)\<close>.
\<close>

theorem put_patch_same_store:
  "snd (serve PUT_todo req todos) = snd (serve PATCH_todo req todos) \<and>
   status (fst (serve PUT_todo req todos)) = status (fst (serve PATCH_todo req todos)) \<and>
   (\<forall>i u.
      findIndex (\<lambda>t. strict_eq (id' t) (parseInt_str (params_id req))) todos = Some i \<and>
      (get_prop (body req) ''title'' = JUndefined \<or>
       (\<exists>s. get_prop (body req) ''title'' = JStr s)) \<and>
      parseInt (get_prop (body req) ''userId'') = Inr u \<longrightarrow>
      status (fst (serve PUT_todo req todos)) = 200 \<and>
      snd (serve PUT_todo req todos) =
        todos[i := apply_supplied
                     (case get_prop (body req) ''title'' of JStr s \<Rightarrow> Some s | _ \<Rightarrow> None)
                     (if get_prop (body req) ''completed'' = JUndefined then None
                      else Some (Boolean (get_prop (body req) ''completed'')))
                     (if get_prop (body req) ''userId'' = JUndefined then None else Some u)
                     (todos ! i)])"
proof (intro conjI allI impI)
  let ?P = "\<lambda>t. strict_eq (id' t) (parseInt_str (params_id req))"
  show "snd (serve PUT_todo req todos) = snd (serve PATCH_todo req todos)"
  proof (cases "first_match ?P todos")
    case None
    then show ?thesis by (simp add: snd_serve put_todo_absent patch_todo_absent)
  next
    case (Some i)
    then show ?thesis by (simp only: snd_serve handler.simps put_todo_found patch_todo_found)
  qed
  show "status (fst (serve PUT_todo req todos)) = status (fst (serve PATCH_todo req todos))"
    by (simp only: status_serve handler.simps put_todo_status patch_todo_status)
next
  fix i u
  let ?P = "\<lambda>t. strict_eq (id' t) (parseInt_str (params_id req))"
  assume a: "findIndex ?P todos = Some i \<and>
      (get_prop (body req) ''title'' = JUndefined \<or>
       (\<exists>s. get_prop (body req) ''title'' = JStr s)) \<and>
      parseInt (get_prop (body req) ''userId'') = Inr u"
  then have fm: "first_match ?P todos = Some i" by (simp add: findIndex_def)
  from first_match_Some [OF fm] have i: "i < length todos" by simp
  from a fm show "status (fst (serve PUT_todo req todos)) = 200"
    by (auto simp: status_serve put_todo_status)
  from a have "snd (put_todo req todos) =
        todos[i := apply_supplied
                     (case get_prop (body req) ''title'' of JStr s \<Rightarrow> Some s | _ \<Rightarrow> None)
                     (if get_prop (body req) ''completed'' = JUndefined then None
                      else Some (Boolean (get_prop (body req) ''completed'')))
                     (if get_prop (body req) ''userId'' = JUndefined then None else Some u)
                     (todos ! i)]"
    unfolding put_todo_found [OF fm] apply_supplied_def Let_def
    by auto
  then show "snd (serve PUT_todo req todos) =
        todos[i := apply_supplied
                     (case get_prop (body req) ''title'' of JStr s \<Rightarrow> Some s | _ \<Rightarrow> None)
                     (if get_prop (body req) ''completed'' = JUndefined then None
                      else Some (Boolean (get_prop (body req) ''completed'')))
                     (if get_prop (body req) ''userId'' = JUndefined then None else Some u)
                     (todos ! i)]"
    by (simp add: snd_serve)
qed

text \<open>
  \<^verbatim>\<open>PATCH /todos/1 {"title": " hi ", "completed": 1, "userId": "7"}\<close> on the initial
  array: what \<^verbatim>\<open>PUT\<close> does to the first record is what \<^verbatim>\<open>PATCH\<close> does.
\<close>

theorem put_patch_same_store_witness:
  "findIndex (\<lambda>t. strict_eq (id' t) (parseInt_str (params_id req_update_1))) todos_init = Some 0 \<and>
   get_prop (body req_update_1) ''title'' = JStr '' hi '' \<and>
   parseInt (get_prop (body req_update_1) ''userId'') = Inr (Num 7) \<and>
   status (fst (serve PATCH_todo req_update_1 todos_init)) = 200 \<and>
   snd (serve PATCH_todo req_update_1 todos_init) =
     todos_init[0 := \<lparr>userId = Num 7, id' = Num 1, title = ''hi'', completed = True\<rparr>]"
proof -
  have found: "findIndex (\<lambda>t. strict_eq (id' t) (parseInt_str (params_id req_update_1)))
                 todos_init = Some 0"
    by code_simp
  have tb: "get_prop (body req_update_1) ''title'' = JStr '' hi ''"
    by code_simp
  have cb: "get_prop (body req_update_1) ''completed'' = JNum (Num 1)"
    by code_simp
  have ub: "get_prop (body req_update_1) ''userId'' = JStr ''7''"
    by code_simp
  have pu: "parseInt (get_prop (body req_update_1) ''userId'') = Inr (Num 7)"
    by code_simp
  have ap: "apply_supplied (Some '' hi '') (Some True) (Some (Num 7)) (todos_init ! 0) =
              \<lparr>userId = Num 7, id' = Num 1, title = ''hi'', completed = True\<rparr>"
    by code_simp
  note inst = put_patch_same_store [of req_update_1 todos_init]
  from inst have same: "snd (serve PUT_todo req_update_1 todos_init) =
                        snd (serve PATCH_todo req_update_1 todos_init)"
    and st: "status (fst (serve PUT_todo req_update_1 todos_init)) =
             status (fst (serve PATCH_todo req_update_1 todos_init))"
    by blast+
  from inst found tb pu
  have "status (fst (serve PUT_todo req_update_1 todos_init)) = 200 \<and>
        snd (serve PUT_todo req_update_1 todos_init) =
        todos_init[0 := apply_supplied
                     (case get_prop (body req_update_1) ''title'' of JStr s \<Rightarrow> Some s | _ \<Rightarrow> None)
                     (if get_prop (body req_update_1) ''completed'' = JUndefined then None
                      else Some (Boolean (get_prop (body req_update_1) ''completed'')))
                     (if get_prop (body req_update_1) ''userId'' = JUndefined then None
                      else Some (Num 7))
                     (todos_init ! 0)]"
    by blast
  then have "status (fst (serve PUT_todo req_update_1 todos_init)) = 200 \<and>
        snd (serve PUT_todo req_update_1 todos_init) =
        todos_init[0 := \<lparr>userId = Num 7, id' = Num 1, title = ''hi'', completed = True\<rparr>]"
    by (simp add: tb cb ub ap)
  with same st found tb pu show ?thesis by simp
qed

section \<open>Reading one record\<close>

lemma get_todo_absent:
  assumes "first_match (\<lambda>t. strict_eq (id' t) (parseInt_str (params_id req))) todos = None"
  shows "get_todo req todos =
           (Inr (Response 404
              (JObj [(''error'', JStr ''Todo not found''),
                     (''id'', JNum (parseInt_str (params_id req))),
                     (''available_ids'', JArr (map (\<lambda>t. JNum (id' t)) todos))])),
            todos)"
  using assms by (simp add: get_todo_def find_js_def)

text \<open>
  Claim C8. When no record of the array has the id that the path parameter parses to,
  \<^verbatim>\<open>GET /todos/:id\<close> answers 404; the body has that id, the double that \<^verbatim>\<open>parseInt\<close>
  returns, under \<^verbatim>\<open>id\<close> and the ids of the array, in order, under \<^verbatim>\<open>available_ids\<close>;
  the array is unchanged.
\<close>

theorem get_unknown_id_lists_ids:
  assumes "\<forall>t \<in> set todos. \<not> strict_eq (id' t) (parseInt_str (params_id req))"
  shows "serve GET_todo req todos =
           (Response 404
              (JObj [(''error'', JStr ''Todo not found''),
                     (''id'', JNum (parseInt_str (params_id req))),
                     (''available_ids'', JArr (map (\<lambda>t. JNum (id' t)) todos))]),
            todos)"
proof -
  from assms
  have "first_match (\<lambda>t. strict_eq (id' t) (parseInt_str (params_id req))) todos = None"
    by (simp add: first_match_None)
  then show ?thesis
    by (simp add: serve_def get_todo_absent)
qed

text \<open>
  On the initial array: \<^verbatim>\<open>GET /todos/99\<close>, and \<^verbatim>\<open>GET /todos/9007199254740993\<close>, whose
  id is read as the double 9007199254740992.
\<close>

theorem get_unknown_id_lists_ids_witness:
  "parseInt_str (params_id (req_id ''99'')) = Num 99 \<and>
   serve GET_todo (req_id ''99'') todos_init =
     (Response 404
        (JObj [(''error'', JStr ''Todo not found''),
               (''id'', JNum (Num 99)),
               (''available_ids'',
                  JArr [JNum (Num 1), JNum (Num 2), JNum (Num 3), JNum (Num 4), JNum (Num 5)])]),
      todos_init) \<and>
   parseInt_str (params_id (req_id ''9007199254740993'')) = Num 9007199254740992 \<and>
   serve GET_todo (req_id ''9007199254740993'') todos_init =
     (Response 404
        (JObj [(''error'', JStr ''Todo not found''),
               (''id'', JNum (Num 9007199254740992)),
               (''available_ids'',
                  JArr [JNum (Num 1), JNum (Num 2), JNum (Num 3), JNum (Num 4), JNum (Num 5)])]),
      todos_init)"
proof -
  have ids: "map (\<lambda>t. JNum (id' t)) todos_init =
             [JNum (Num 1), JNum (Num 2), JNum (Num 3), JNum (Num 4), JNum (Num 5)]"
    by (simp add: todos_init_def)
  have p: "parseInt_str (params_id (req_id ''99'')) = Num 99"
    by code_simp
  then have "\<forall>t \<in> set todos_init. \<not> strict_eq (id' t) (parseInt_str (params_id (req_id ''99'')))"
    by (simp add: todos_init_def strict_eq_def)
  from get_unknown_id_lists_ids [OF this] p ids
  have one: "serve GET_todo (req_id ''99'') todos_init =
     (Response 404
        (JObj [(''error'', JStr ''Todo not found''),
               (''id'', JNum (Num 99)),
               (''available_ids'',
                  JArr [JNum (Num 1), JNum (Num 2), JNum (Num 3), JNum (Num 4), JNum (Num 5)])]),
      todos_init)"
    by simp
  have q: "parseInt_str (params_id (req_id ''9007199254740993'')) = Num 9007199254740992"
    by code_simp
  then have "\<forall>t \<in> set todos_init.
               \<not> strict_eq (id' t) (parseInt_str (params_id (req_id ''9007199254740993'')))"
    by (simp add: todos_init_def strict_eq_def)
  from get_unknown_id_lists_ids [OF this] q ids
  have two: "serve GET_todo (req_id ''9007199254740993'') todos_init =
     (Response 404
        (JObj [(''error'', JStr ''Todo not found''),
               (''id'', JNum (Num 9007199254740992)),
               (''available_ids'',
                  JArr [JNum (Num 1), JNum (Num 2), JNum (Num 3), JNum (Num 4), JNum (Num 5)])]),
      todos_init)"
    by simp
  from p one q two show ?thesis by blast
qed

section \<open>Deleting, and reading afterwards\<close>

text \<open>
  Claim C6. In a store that satisfies the invariant: when a record \<open>t\<close> of the array has
  the requested id, \<^verbatim>\<open>DELETE /todos/:id\<close> answers 200 with \<open>t\<close> as \<^verbatim>\<open>deleted_todo\<close>, and
  the array afterwards is the old one without the slot of \<open>t\<close>, the other records in
  their order, so one shorter; a \<^verbatim>\<open>GET\<close> of the same id then answers 404. When no
  record has the id, the answer is 404 and the array is unchanged.
\<close>

theorem delete_removes_that_record:
  assumes inv: "store_inv todos"
  shows "(\<forall>t. t \<in> set todos \<and> strict_eq (id' t) (parseInt_str (params_id req)) \<longrightarrow>
            (\<exists>i. i < length todos \<and> todos ! i = t \<and>
                 serve DELETE_todo req todos =
                   (Response 200
                      (JObj [(''message'', JStr ''Todo deleted successfully''),
                             (''deleted_todo'', todo_json t),
                             (''remaining_todos'', JNum (Num (int (length todos) - 1))),
                             (''timestamp'', JStr (now req))]),
                    take i todos @ drop (Suc i) todos) \<and>
                 length (snd (serve DELETE_todo req todos)) + 1 = length todos \<and>
                 status (fst (serve GET_todo req (snd (serve DELETE_todo req todos)))) = 404)) \<and>
         ((\<forall>t \<in> set todos. \<not> strict_eq (id' t) (parseInt_str (params_id req))) \<longrightarrow>
            serve DELETE_todo req todos =
              (Response 404
                 (JObj [(''error'', JStr ''Todo not found''),
                        (''id'', JNum (parseInt_str (params_id req)))]),
               todos))"
proof (intro conjI allI impI)
  let ?idv = "parseInt_str (params_id req)"
  let ?P = "\<lambda>t. strict_eq (id' t) ?idv"
  fix t
  assume a: "t \<in> set todos \<and> strict_eq (id' t) ?idv"
  from inv have d: "distinct (map id' todos)" by (simp add: store_inv_def)
  from a first_match_exists [of t todos ?P] obtain i where fm: "first_match ?P todos = Some i"
    by blast
  from first_match_Some [OF fm] have i: "i < length todos" by simp
  from first_match_unique [OF d _ fm] a have ti: "todos ! i = t" by blast
  from fm have del: "delete_todo req todos =
           (Inr (Response 200
              (JObj [(''message'', JStr ''Todo deleted successfully''),
                     (''deleted_todo'', todo_json (todos ! i)),
                     (''remaining_todos'', JNum (Num (int (length (splice1 todos i))))),
                     (''timestamp'', JStr (now req))])),
            splice1 todos i)"
    by (intro delete_todo_found) (simp add: findIndex_def)
  from length_splice1 [OF i] have len: "int (length (splice1 todos i)) = int (length todos) - 1"
    by simp
  have gone: "first_match ?P (splice1 todos i) = None"
  proof -
    have "\<not> ?P x" if "x \<in> set (splice1 todos i)" for x
    proof
      assume "?P x"
      with a ti have "id' x = id' (todos ! i)" by (simp add: strict_eq_def)
      with splice1_other_id [OF d i that] show False by simp
    qed
    then show ?thesis by (simp add: first_match_None)
  qed
  have "serve DELETE_todo req todos =
          (Response 200
             (JObj [(''message'', JStr ''Todo deleted successfully''),
                    (''deleted_todo'', todo_json t),
                    (''remaining_todos'', JNum (Num (int (length todos) - 1))),
                    (''timestamp'', JStr (now req))]),
           take i todos @ drop (Suc i) todos)"
    using del ti len by (simp add: serve_def splice1_def)
  moreover have "length (snd (serve DELETE_todo req todos)) + 1 = length todos"
    using del length_splice1 [OF i] by (simp add: snd_serve)
  moreover have "status (fst (serve GET_todo req (snd (serve DELETE_todo req todos)))) = 404"
    using del get_todo_absent [OF gone] by (simp add: snd_serve status_serve)
  ultimately
  show "\<exists>i. i < length todos \<and> todos ! i = t \<and>
             serve DELETE_todo req todos =
               (Response 200
                  (JObj [(''message'', JStr ''Todo deleted successfully''),
                         (''deleted_todo'', todo_json t),
                         (''remaining_todos'', JNum (Num (int (length todos) - 1))),
                         (''timestamp'', JStr (now req))]),
                take i todos @ drop (Suc i) todos) \<and>
             length (snd (serve DELETE_todo req todos)) + 1 = length todos \<and>
             status (fst (serve GET_todo req (snd (serve DELETE_todo req todos)))) = 404"
    using i ti by blast
next
  assume "\<forall>t \<in> set todos. \<not> strict_eq (id' t) (parseInt_str (params_id req))"
  then have "findIndex (\<lambda>t. strict_eq (id' t) (parseInt_str (params_id req))) todos = None"
    by (simp add: findIndex_def first_match_None)
  then show "serve DELETE_todo req todos =
              (Response 404
                 (JObj [(''error'', JStr ''Todo not found''),
                        (''id'', JNum (parseInt_str (params_id req)))]),
               todos)"
    by (simp add: serve_def delete_todo_absent)
qed

text \<open>
  On the initial array: \<^verbatim>\<open>DELETE /todos/3\<close> returns the third record and leaves four,
  \<^verbatim>\<open>GET /todos/3\<close> then answers 404; \<^verbatim>\<open>DELETE /todos/99\<close> answers 404 and changes
  nothing.
\<close>

theorem delete_removes_that_record_witness:
  "store_inv todos_init \<and>
   strict_eq (id' (todos_init ! 2)) (parseInt_str (params_id (req_id ''3''))) \<and>
   get_prop (json (fst (serve DELETE_todo (req_id ''3'') todos_init))) ''deleted_todo'' =
     todo_json (todos_init ! 2) \<and>
   length (snd (serve DELETE_todo (req_id ''3'') todos_init)) + 1 = 5 \<and>
   status (fst (serve GET_todo (req_id ''3'')
                  (snd (serve DELETE_todo (req_id ''3'') todos_init)))) = 404 \<and>
   serve DELETE_todo (req_id ''99'') todos_init =
     (Response 404 (JObj [(''error'', JStr ''Todo not found''), (''id'', JNum (Num 99))]),
      todos_init)"
proof -
  have inv: "store_inv todos_init"
    by (simp add: store_inv_def todos_init_def)
  have mem: "todos_init ! 2 \<in> set todos_init"
    by (simp add: todos_init_def)
  have eq: "strict_eq (id' (todos_init ! 2)) (parseInt_str (params_id (req_id ''3'')))"
    by code_simp
  have p99: "parseInt_str (params_id (req_id ''99'')) = Num 99"
    by code_simp
  then have none: "\<forall>t \<in> set todos_init.
                     \<not> strict_eq (id' t) (parseInt_str (params_id (req_id ''99'')))"
    by (simp add: todos_init_def strict_eq_def)
  have len: "length todos_init = 5"
    by (simp add: todos_init_def)
  from delete_removes_that_record [OF inv, of "req_id ''3''"] mem eq
  obtain i where
    "serve DELETE_todo (req_id ''3'') todos_init =
       (Response 200
          (JObj [(''message'', JStr ''Todo deleted successfully''),
                 (''deleted_todo'', todo_json (todos_init ! 2)),
                 (''remaining_todos'', JNum (Num (int (length todos_init) - 1))),
                 (''timestamp'', JStr (now (req_id ''3'')))]),
        take i todos_init @ drop (Suc i) todos_init)"
    "length (snd (serve DELETE_todo (req_id ''3'') todos_init)) + 1 = length todos_init"
    "status (fst (serve GET_todo (req_id ''3'')
                    (snd (serve DELETE_todo (req_id ''3'') todos_init)))) = 404"
    by blast
  then have present:
    "get_prop (json (fst (serve DELETE_todo (req_id ''3'') todos_init))) ''deleted_todo'' =
       todo_json (todos_init ! 2)"
    "length (snd (serve DELETE_todo (req_id ''3'') todos_init)) + 1 = 5"
    "status (fst (serve GET_todo (req_id ''3'')
                    (snd (serve DELETE_todo (req_id ''3'') todos_init)))) = 404"
    by (simp_all add: get_prop_def len)
  from delete_removes_that_record [OF inv, of "req_id ''99''"] none p99
  have absent: "serve DELETE_todo (req_id ''99'') todos_init =
     (Response 404 (JObj [(''error'', JStr ''Todo not found''), (''id'', JNum (Num 99))]),
      todos_init)"
    by simp
  from inv eq present absent show ?thesis by blast
qed

section \<open>Toggling\<close>

lemma toggle_todo_found:
  assumes fm: "first_match (\<lambda>t. strict_eq (id' t) (parseInt_str (params_id req))) todos = Some i"
  shows "toggle_todo req todos =
     (Inr (Response 200
        (JObj [(''message'',
                  JStr (''Todo '' @ (if \<not> completed (todos ! i) then ''completed''
                                     else ''uncompleted''))),
               (''todo'', todo_json ((todos ! i)\<lparr>completed := \<not> completed (todos ! i)\<rparr>)),
               (''timestamp'', JStr (now req))])),
      todos[i := (todos ! i)\<lparr>completed := \<not> completed (todos ! i)\<rparr>])"
  using fm by (simp add: toggle_todo_def find_js_def Let_def)

text \<open>
  Claim C7. In a store that satisfies the invariant, let \<open>t\<close> be a record of the array
  with the requested id. \<^verbatim>\<open>POST /todos/:id/toggle\<close> answers with \<open>t\<close>, its \<^verbatim>\<open>completed\<close>
  negated, and changes only the slot of \<open>t\<close>; the same request again answers with \<open>t\<close>
  as it was, and the array is the original one.
\<close>

theorem toggle_twice_restores:
  assumes inv: "store_inv todos"
    and mem: "t \<in> set todos"
    and eq: "strict_eq (id' t) (parseInt_str (params_id req))"
  shows "\<exists>i. i < length todos \<and> todos ! i = t \<and>
           serve POST_toggle req todos =
             (Response 200
                (JObj [(''message'',
                          JStr (''Todo '' @ (if \<not> completed t then ''completed''
                                             else ''uncompleted''))),
                       (''todo'', todo_json (t\<lparr>completed := \<not> completed t\<rparr>)),
                       (''timestamp'', JStr (now req))]),
              todos[i := t\<lparr>completed := \<not> completed t\<rparr>]) \<and>
           serve POST_toggle req (snd (serve POST_toggle req todos)) =
             (Response 200
                (JObj [(''message'',
                          JStr (''Todo '' @ (if completed t then ''completed''
                                             else ''uncompleted''))),
                       (''todo'', todo_json t),
                       (''timestamp'', JStr (now req))]),
              todos)"
proof -
  let ?P = "\<lambda>t. strict_eq (id' t) (parseInt_str (params_id req))"
  let ?t' = "t\<lparr>completed := \<not> completed t\<rparr>"
  from inv have d: "distinct (map id' todos)" by (simp add: store_inv_def)
  from mem eq first_match_exists [of t todos ?P] obtain i where fm: "first_match ?P todos = Some i"
    by blast
  from first_match_Some [OF fm] have i: "i < length todos" by simp
  from first_match_unique [OF d mem fm eq] have ti: "todos ! i = t" .
  have one: "toggle_todo req todos =
     (Inr (Response 200
        (JObj [(''message'',
                  JStr (''Todo '' @ (if \<not> completed t then ''completed'' else ''uncompleted''))),
               (''todo'', todo_json ?t'),
               (''timestamp'', JStr (now req))])),
      todos[i := ?t'])"
    using toggle_todo_found [OF fm] by (simp add: ti)
  from eq have "?P ?t'" by simp
  with fm have fm': "first_match ?P (todos[i := ?t']) = Some i"
    by (rule first_match_update)
  have two: "toggle_todo req (todos[i := ?t']) =
     (Inr (Response 200
        (JObj [(''message'',
                  JStr (''Todo '' @ (if completed t then ''completed'' else ''uncompleted''))),
               (''todo'', todo_json t),
               (''timestamp'', JStr (now req))])),
      todos)"
    using toggle_todo_found [OF fm'] i ti by (simp add: list_update_same_conv)
  from one two i ti show ?thesis
    by (intro exI [of _ i]) (simp add: serve_def)
qed

text \<open>\<^verbatim>\<open>POST /todos/2/toggle\<close> twice on the initial array.\<close>

theorem toggle_twice_restores_witness:
  "store_inv todos_init \<and>
   strict_eq (id' (todos_init ! 1)) (parseInt_str (params_id (req_id ''2''))) \<and>
   completed (todos_init ! 1) \<and>
   get_prop (json (fst (serve POST_toggle (req_id ''2'') todos_init))) ''todo'' =
     todo_json ((todos_init ! 1)\<lparr>completed := False\<rparr>) \<and>
   serve POST_toggle (req_id ''2'') (snd (serve POST_toggle (req_id ''2'') todos_init)) =
     (Response 200
        (JObj [(''message'', JStr ''Todo completed''),
               (''todo'', todo_json (todos_init ! 1)),
               (''timestamp'', JStr (now (req_id ''2'')))]),
      todos_init)"
proof -
  have inv: "store_inv todos_init"
    by (simp add: store_inv_def todos_init_def)
  have mem: "todos_init ! 1 \<in> set todos_init"
    by (simp add: todos_init_def)
  have eq: "strict_eq (id' (todos_init ! 1)) (parseInt_str (params_id (req_id ''2'')))"
    by code_simp
  have c: "completed (todos_init ! 1)"
    by (simp add: todos_init_def)
  from toggle_twice_restores [OF inv mem eq] c
  have "get_prop (json (fst (serve POST_toggle (req_id ''2'') todos_init))) ''todo'' =
          todo_json ((todos_init ! 1)\<lparr>completed := False\<rparr>) \<and>
        serve POST_toggle (req_id ''2'') (snd (serve POST_toggle (req_id ''2'') todos_init)) =
          (Response 200
             (JObj [(''message'', JStr ''Todo completed''),
                    (''todo'', todo_json (todos_init ! 1)),
                    (''timestamp'', JStr (now (req_id ''2'')))]),
           todos_init)"
    by (auto simp: get_prop_def)
  with inv eq c show ?thesis by blast
qed

section \<open>The invariant\<close>

lemma store_inv_ids: "map id' a = map id' b \<Longrightarrow> store_inv a = store_inv b"
proof -
  assume eq: "map id' a = map id' b"
  have "(\<forall>t \<in> set xs. is_integer (id' t) \<and> js_less (Num 0) (id' t)) \<longleftrightarrow>
        (\<forall>n \<in> set (map id' xs). is_integer n \<and> js_less (Num 0) n)" for xs :: "todo list"
    by simp
  then have "store_inv xs \<longleftrightarrow>
          distinct (map id' xs) \<and> (\<forall>n \<in> set (map id' xs). is_integer n \<and> js_less (Num 0) n)"
    for xs
    unfolding store_inv_def by blast
  then show ?thesis by (simp only: eq)
qed

lemma map_id_update:
  assumes "i < length todos" and "id' x = id' (todos ! i)"
  shows "map id' (todos[i := x]) = map id' todos"
proof -
  have "map id' (todos[i := x]) = (map id' todos)[i := id' (todos ! i)]"
    using assms(2) by (simp add: map_update)
  also have "\<dots> = map id' todos"
    using assms(1) by (simp add: list_update_same_conv)
  finally show ?thesis .
qed

lemma store_inv_append:
  assumes "store_inv todos" and "id' x = Num (next_id_spec todos)"
  shows "store_inv (todos @ [x])"
proof -
  from assms(1) have ints: "\<forall>t \<in> set todos. is_integer (id' t)"
    by (simp add: store_inv_def)
  have "id' x \<noteq> id' t" if "t \<in> set todos" for t
    using js_less_next_id [OF ints that] assms(2) by (cases "id' t") auto
  then have "id' x \<notin> set (map id' todos)" by auto
  moreover have "0 < next_id_spec todos"
  proof -
    have "0 \<le> Max (insert 0 (int_of ` id' ` set todos))" by simp
    then show ?thesis unfolding next_id_spec_def by linarith
  qed
  ultimately show ?thesis using assms by (simp add: store_inv_def)
qed

lemma Ball_update:
  assumes "\<forall>t \<in> set xs. Q t" and "Q x"
  shows "\<forall>t \<in> set (xs[i := x]). Q t"
  using assms set_update_subset_insert [of xs i x] by auto

text \<open>
  What the handlers do to the array. A create leaves it or appends the new record; every
  other handler but \<^verbatim>\<open>DELETE\<close> leaves the sequence of ids as it is; \<^verbatim>\<open>DELETE\<close> leaves the
  array or removes one slot.
\<close>

lemma post_todos_effect:
  "snd (post_todos req todos) = todos \<or>
   (\<exists>x. snd (post_todos req todos) = todos @ [x] \<and>
        id' x = js_add (Math_max (map id' todos @ [Num 0])) (Num 1) \<and>
        parseInt (with_default (get_prop (body req) ''userId'') (JNum (Num 1))) = Inr (userId x))"
  by (simp add: post_todos_def Let_def split: sum.splits)

lemma put_todo_ids: "map id' (snd (put_todo req todos)) = map id' todos"
proof (cases "first_match (\<lambda>t. strict_eq (id' t) (parseInt_str (params_id req))) todos")
  case None
  then show ?thesis by (simp add: put_todo_absent)
next
  case (Some i)
  from first_match_Some [OF Some] have i: "i < length todos" by simp
  show ?thesis
    unfolding put_todo_found [OF Some] Let_def
    using i by (simp add: map_id_update split: sum.splits)
qed

lemma patch_todo_ids: "map id' (snd (patch_todo req todos)) = map id' todos"
proof (cases "first_match (\<lambda>t. strict_eq (id' t) (parseInt_str (params_id req))) todos")
  case None
  then show ?thesis by (simp add: patch_todo_absent)
next
  case (Some i)
  then show ?thesis
    using put_todo_ids [of req todos] by (simp only: put_todo_found patch_todo_found)
qed

lemma toggle_todo_ids: "map id' (snd (toggle_todo req todos)) = map id' todos"
proof (cases "first_match (\<lambda>t. strict_eq (id' t) (parseInt_str (params_id req))) todos")
  case None
  then show ?thesis by (simp add: toggle_todo_def find_js_def)
next
  case (Some i)
  from first_match_Some [OF Some] have i: "i < length todos" by simp
  with Some show ?thesis
    by (simp add: toggle_todo_def find_js_def Let_def map_id_update)
qed

lemma complete_todo_ids: "map id' (snd (complete_todo req todos)) = map id' todos"
proof (cases "first_match (\<lambda>t. strict_eq (id' t) (parseInt_str (params_id req))) todos")
  case None
  then show ?thesis by (simp add: complete_todo_def find_js_def)
next
  case (Some i)
  from first_match_Some [OF Some] have i: "i < length todos" by simp
  with Some show ?thesis
    by (simp add: complete_todo_def find_js_def Let_def map_id_update)
qed

lemma delete_effect:
  "snd (delete_todo req todos) = todos \<or> (\<exists>i. snd (delete_todo req todos) = splice1 todos i)"
  by (auto simp: delete_todo_def Let_def split: option.splits)

lemma read_effect: "snd (get_todos req todos) = todos" "snd (get_todo req todos) = todos"
  by (simp_all add: get_todos_def get_todo_def Let_def split: sum.splits option.splits)

lemma store_inv_handler:
  assumes inv: "store_inv todos"
  shows "store_inv (snd (handler r req todos))"
proof (cases r)
  case POST_todos
  from inv have ints: "\<forall>t \<in> set todos. is_integer (id' t)" by (simp add: store_inv_def)
  from post_todos_effect [of req todos] show ?thesis
    using inv store_inv_append [OF inv] new_id_integer [OF ints] POST_todos by auto
next
  case PUT_todo
  with store_inv_ids [OF put_todo_ids] inv show ?thesis by simp
next
  case PATCH_todo
  with store_inv_ids [OF patch_todo_ids] inv show ?thesis by simp
next
  case DELETE_todo
  with delete_effect [of req todos] inv show ?thesis by (auto intro: store_inv_splice1)
next
  case POST_toggle
  with store_inv_ids [OF toggle_todo_ids] inv show ?thesis by simp
next
  case POST_complete
  with store_inv_ids [OF complete_todo_ids] inv show ?thesis by simp
qed (simp_all add: read_effect inv)

text \<open>Every state of the array that requests can lead to satisfies the invariant.\<close>

lemma reachable_store_inv: "reachable todos \<Longrightarrow> store_inv todos"
proof (induction rule: reachable.induct)
  case init
  show ?case by (simp add: store_inv_def todos_init_def)
next
  case (step todos r req)
  then show ?case by (simp add: snd_serve store_inv_handler)
qed

subsection \<open>The \<^verbatim>\<open>userId\<close> fields\<close>

lemma parseInt_default_userId: "parseInt (JNum (Num 1)) = Inr (Num 1)"
  by code_simp

lemma userIds_handler:
  assumes ints: "\<forall>t \<in> set todos. is_integer (userId t)"
    and ok: "get_prop (body req) ''userId'' = JUndefined \<or>
             (\<exists>n. parseInt (get_prop (body req) ''userId'') = Inr (Num n))"
  shows "\<forall>t \<in> set (snd (handler r req todos)). is_integer (userId t)"
proof -
  let ?P = "\<lambda>t. strict_eq (id' t) (parseInt_str (params_id req))"
  have put: "\<forall>t \<in> set (snd (put_todo req todos)). is_integer (userId t)"
  proof (cases "first_match ?P todos")
    case None
    with ints show ?thesis by (simp add: put_todo_absent)
  next
    case (Some i)
    from first_match_Some [OF Some] have "todos ! i \<in> set todos" by simp
    with ints have old: "is_integer (userId (todos ! i))" by simp
    have upd: "\<forall>t \<in> set (todos[i := x]). is_integer (userId t)" if "is_integer (userId x)" for x
      using ints that by (rule Ball_update)
    have oku: "is_integer u"
      if "parseInt (get_prop (body req) ''userId'') = Inr u"
        and "get_prop (body req) ''userId'' \<noteq> JUndefined" for u
      using ok that by auto
    let ?tv = "if get_prop (body req) ''title'' \<noteq> JUndefined
               then call_trim (get_prop (body req) ''title'') else Inr (title (todos ! i))"
    show ?thesis
    proof (cases ?tv)
      case (Inl e)
      then have "snd (put_todo req todos) = todos"
        unfolding put_todo_found [OF Some] Let_def by simp
      with ints show ?thesis by simp
    next
      case tv: (Inr v)
      let ?t2 = "(todos ! i)\<lparr>title := v,
                   completed := (if get_prop (body req) ''completed'' \<noteq> JUndefined
                                 then Boolean (get_prop (body req) ''completed'')
                                 else completed (todos ! i))\<rparr>"
      let ?uv = "if get_prop (body req) ''userId'' \<noteq> JUndefined
                 then parseInt (get_prop (body req) ''userId'') else Inr (userId ?t2)"
      show ?thesis
      proof (cases ?uv)
        case (Inl e)
        then have "snd (put_todo req todos) = todos[i := ?t2]"
          unfolding put_todo_found [OF Some] Let_def tv by simp
        moreover have "is_integer (userId ?t2)" using old by simp
        ultimately show ?thesis using upd [of ?t2] by simp
      next
        case (Inr u)
        then have "snd (put_todo req todos) = todos[i := ?t2\<lparr>userId := u\<rparr>]"
          unfolding put_todo_found [OF Some] Let_def tv by simp
        moreover have "is_integer u"
          using Inr oku old by (auto split: if_splits)
        ultimately show ?thesis using upd [of "?t2\<lparr>userId := u\<rparr>"] by simp
      qed
    qed
  qed
  have completed: "\<forall>t \<in> set (todos[i := (todos ! i)\<lparr>completed := b\<rparr>]). is_integer (userId t)"
    if "i < length todos" for i b
  proof -
    from that have "todos ! i \<in> set todos" by simp
    with ints show ?thesis by (intro Ball_update) auto
  qed
  show ?thesis
  proof (cases r)
    case GET_todos
    with ints show ?thesis by (simp add: read_effect)
  next
    case GET_todo
    with ints show ?thesis by (simp add: read_effect)
  next
    case POST_todos
    have "parseInt (with_default (get_prop (body req) ''userId'') (JNum (Num 1))) = Inr u
          \<Longrightarrow> is_integer u" for u
      using ok by (cases "get_prop (body req) ''userId'' = JUndefined")
                  (auto simp: with_default_def parseInt_default_userId)
    with post_todos_effect [of req todos] ints POST_todos show ?thesis by auto
  next
    case PUT_todo
    with put show ?thesis by simp
  next
    case PATCH_todo
    have "snd (patch_todo req todos) = snd (put_todo req todos)"
      by (cases "first_match ?P todos")
         (simp_all only: put_todo_absent patch_todo_absent put_todo_found patch_todo_found)
    with put PATCH_todo show ?thesis by simp
  next
    case DELETE_todo
    have "\<forall>t \<in> set (splice1 todos i). is_integer (userId t)" for i
      using ints set_splice1 [of todos i] by blast
    with delete_effect [of req todos] ints DELETE_todo show ?thesis by auto
  next
    case POST_toggle
    show ?thesis
    proof (cases "first_match ?P todos")
      case None
      with ints POST_toggle show ?thesis by (simp add: toggle_todo_def find_js_def)
    next
      case (Some i)
      from first_match_Some [OF Some] have "i < length todos" by simp
      from completed [OF this] Some POST_toggle show ?thesis
        by (simp add: toggle_todo_def find_js_def Let_def)
    qed
  next
    case POST_complete
    show ?thesis
    proof (cases "first_match ?P todos")
      case None
      with ints POST_complete show ?thesis by (simp add: complete_todo_def find_js_def)
    next
      case (Some i)
      from first_match_Some [OF Some] have "i < length todos" by simp
      from completed [OF this] Some POST_complete show ?thesis
        by (simp add: complete_todo_def find_js_def Let_def)
    qed
  qed
qed

text \<open>
  Claim C9, as the code has it. Every operation, for every request, keeps the ids of the
  array pairwise distinct positive integers. The \<^verbatim>\<open>userId\<close> fields stay integers when the
  body's \<^verbatim>\<open>userId\<close> is absent or \<^verbatim>\<open>parseInt\<close> converts it to an integer; they need not
  otherwise: \<^verbatim>\<open>parseInt\<close> gives \<^verbatim>\<open>NaN\<close> for a string without digits and \<^verbatim>\<open>Infinity\<close> for
  a digit string beyond the doubles.
\<close>

theorem operations_preserve_ids:
  assumes "store_inv todos"
  shows "store_inv (snd (serve r req todos)) \<and>
         (spec_inv todos \<and>
          (get_prop (body req) ''userId'' = JUndefined \<or>
           (\<exists>n. parseInt (get_prop (body req) ''userId'') = Inr (Num n))) \<longrightarrow>
          spec_inv (snd (serve r req todos)))"
  using assms store_inv_handler [of todos r req] userIds_handler [of todos req r]
  by (simp add: snd_serve spec_inv_def)

text \<open>
  On the initial array: \<^verbatim>\<open>PUT /todos/1\<close> with \<^verbatim>\<open>userId\<close> \<^verbatim>\<open>"7"\<close> keeps both invariants;
  so does \<^verbatim>\<open>PUT /todos/1\<close> with the number \<^verbatim>\<open>1e21\<close>, which \<^verbatim>\<open>parseInt\<close> converts to 1;
  and a create with \<^verbatim>\<open>userId\<close> \<^verbatim>\<open>"abc"\<close> keeps the one about the ids.
\<close>

theorem operations_preserve_ids_witness:
  "store_inv todos_init \<and> spec_inv todos_init \<and>
   parseInt (get_prop (body req_update_1) ''userId'') = Inr (Num 7) \<and>
   spec_inv (snd (serve PUT_todo req_update_1 todos_init)) \<and>
   parseInt (get_prop (body req_update_user_1e21) ''userId'') = Inr (Num 1) \<and>
   spec_inv (snd (serve PUT_todo req_update_user_1e21 todos_init)) \<and>
   store_inv (snd (serve POST_todos req_create_user_abc todos_init))"
proof -
  have inv: "store_inv todos_init"
    by (simp add: store_inv_def todos_init_def)
  then have sinv: "spec_inv todos_init"
    by (simp add: spec_inv_def todos_init_def)
  have pu: "parseInt (get_prop (body req_update_1) ''userId'') = Inr (Num 7)"
    by code_simp
  from operations_preserve_ids [OF inv, of PUT_todo req_update_1] sinv pu
  have one: "spec_inv (snd (serve PUT_todo req_update_1 todos_init))"
    by blast
  have pe: "parseInt (get_prop (body req_update_user_1e21) ''userId'') = Inr (Num 1)"
    by code_simp
  from operations_preserve_ids [OF inv, of PUT_todo req_update_user_1e21] sinv pe
  have big: "spec_inv (snd (serve PUT_todo req_update_user_1e21 todos_init))"
    by blast
  from operations_preserve_ids [OF inv, of POST_todos req_create_user_abc]
  have two: "store_inv (snd (serve POST_todos req_create_user_abc todos_init))"
    by blast
  from inv sinv pu one pe big two show ?thesis by blast
qed

text \<open>
  The claim as stated fails for the \<^verbatim>\<open>userId\<close> field. On the initial array,
  \<^verbatim>\<open>POST /todos {"title": "x", "userId": "abc"}\<close> stores a record whose \<^verbatim>\<open>userId\<close> is
  \<^verbatim>\<open>NaN\<close>; with a one followed by 309 zeros as \<^verbatim>\<open>userId\<close>, the stored \<^verbatim>\<open>userId\<close> is
  \<^verbatim>\<open>Infinity\<close>.
\<close>

theorem userId_not_an_integer:
  "spec_inv todos_init \<and>
   get_prop (body req_create_user_abc) ''userId'' = JStr ''abc'' \<and>
   snd (serve POST_todos req_create_user_abc todos_init) =
     todos_init @ [\<lparr>userId = NaN, id' = Num 6, title = ''x'', completed = False\<rparr>] \<and>
   \<not> spec_inv (snd (serve POST_todos req_create_user_abc todos_init)) \<and>
   snd (serve POST_todos req_create_user_huge todos_init) =
     todos_init @ [\<lparr>userId = PosInf, id' = Num 6, title = ''x'', completed = False\<rparr>] \<and>
   \<not> spec_inv (snd (serve POST_todos req_create_user_huge todos_init))"
proof -
  have sinv: "spec_inv todos_init"
    by (simp add: spec_inv_def store_inv_def todos_init_def)
  have b: "get_prop (body req_create_user_abc) ''userId'' = JStr ''abc''"
    by code_simp
  have st: "snd (serve POST_todos req_create_user_abc todos_init) =
     todos_init @ [\<lparr>userId = NaN, id' = Num 6, title = ''x'', completed = False\<rparr>]"
    by code_simp
  have n1: "\<not> spec_inv (todos_init @ [\<lparr>userId = NaN, id' = Num 6, title = ''x'', completed = False\<rparr>])"
    by (simp add: spec_inv_def)
  have st2: "snd (serve POST_todos req_create_user_huge todos_init) =
     todos_init @ [\<lparr>userId = PosInf, id' = Num 6, title = ''x'', completed = False\<rparr>]"
    by code_simp
  have n2: "\<not> spec_inv (todos_init @ [\<lparr>userId = PosInf, id' = Num 6, title = ''x'', completed = False\<rparr>])"
    by (simp add: spec_inv_def)
  from sinv b st n1 st2 n2 show ?thesis by simp
qed

section \<open>A title that is not a string\<close>

lemma call_trim_non_string: "\<forall>s. v \<noteq> JStr s \<Longrightarrow> \<exists>e. call_trim v = Inl e"
  by (cases v) simp_all

text \<open>
  Claim C10. Let the body's title be anything but a string. If it is truthy,
  \<^verbatim>\<open>POST /todos\<close> throws a \<^verbatim>\<open>TypeError\<close> (from \<^verbatim>\<open>title.trim()\<close>, unless \<^verbatim>\<open>parseInt(userId)\<close>
  has thrown already) and the request is answered 500, not 400. If it is not
  \<^verbatim>\<open>undefined\<close> and a record has the requested id, \<^verbatim>\<open>PUT\<close> and \<^verbatim>\<open>PATCH /todos/:id\<close> throw
  the \<^verbatim>\<open>TypeError\<close> of \<^verbatim>\<open>title.trim()\<close> and are answered 500 by the error handler. In all
  three cases the array is left as it was.
\<close>

theorem non_string_title_throws:
  assumes nonstr: "\<forall>s. get_prop (body req) ''title'' \<noteq> JStr s"
  shows "(Boolean (get_prop (body req) ''title'') \<longrightarrow>
            (\<exists>e. post_todos req todos = (Inl e, todos) \<and>
                 (parseInt (with_default (get_prop (body req) ''userId'') (JNum (Num 1))) = Inl e \<or>
                  call_trim (get_prop (body req) ''title'') = Inl e) \<and>
                 serve POST_todos req todos = (error_handler e req, todos)) \<and>
            status (fst (serve POST_todos req todos)) = 500) \<and>
         (get_prop (body req) ''title'' \<noteq> JUndefined \<and>
          (\<exists>t \<in> set todos. strict_eq (id' t) (parseInt_str (params_id req))) \<longrightarrow>
            (\<exists>e. call_trim (get_prop (body req) ''title'') = Inl e \<and>
                 put_todo req todos = (Inl e, todos) \<and>
                 patch_todo req todos = (Inl e, todos) \<and>
                 serve PUT_todo req todos = (error_handler e req, todos) \<and>
                 serve PATCH_todo req todos = (error_handler e req, todos)) \<and>
            status (fst (serve PUT_todo req todos)) = 500 \<and>
            status (fst (serve PATCH_todo req todos)) = 500)"
proof (intro conjI impI)
  from call_trim_non_string [OF nonstr] obtain e where e: "call_trim (get_prop (body req) ''title'') = Inl e"
    by blast
  {
    assume truthy: "Boolean (get_prop (body req) ''title'')"
    show "\<exists>e. post_todos req todos = (Inl e, todos) \<and>
              (parseInt (with_default (get_prop (body req) ''userId'') (JNum (Num 1))) = Inl e \<or>
               call_trim (get_prop (body req) ''title'') = Inl e) \<and>
              serve POST_todos req todos = (error_handler e req, todos)"
    proof (cases "parseInt (with_default (get_prop (body req) ''userId'') (JNum (Num 1)))")
      case (Inl e')
      with truthy have "post_todos req todos = (Inl e', todos)"
        by (simp add: post_todos_def Let_def)
      with Inl show ?thesis by (auto simp: serve_def)
    next
      case (Inr u)
      with truthy e have "post_todos req todos = (Inl e, todos)"
        by (simp add: post_todos_def Let_def)
      with e show ?thesis by (auto simp: serve_def)
    qed
    then show "status (fst (serve POST_todos req todos)) = 500"
      by (auto simp: status_serve)
  }
  {
    assume a: "get_prop (body req) ''title'' \<noteq> JUndefined \<and>
               (\<exists>t \<in> set todos. strict_eq (id' t) (parseInt_str (params_id req)))"
    then obtain i where
      fm: "first_match (\<lambda>t. strict_eq (id' t) (parseInt_str (params_id req))) todos = Some i"
      using first_match_exists [of _ todos "\<lambda>t. strict_eq (id' t) (parseInt_str (params_id req))"]
      by blast
    from a e fm have put: "put_todo req todos = (Inl e, todos)"
      by (simp add: put_todo_def findIndex_def Let_def)
    from a e fm have patch: "patch_todo req todos = (Inl e, todos)"
      by (simp add: patch_todo_def find_js_def Let_def)
    from e put patch
    show "\<exists>e. call_trim (get_prop (body req) ''title'') = Inl e \<and>
              put_todo req todos = (Inl e, todos) \<and>
              patch_todo req todos = (Inl e, todos) \<and>
              serve PUT_todo req todos = (error_handler e req, todos) \<and>
              serve PATCH_todo req todos = (error_handler e req, todos)"
      by (auto simp: serve_def)
    from put show "status (fst (serve PUT_todo req todos)) = 500"
      by (simp add: status_serve)
    from patch show "status (fst (serve PATCH_todo req todos)) = 500"
      by (simp add: status_serve)
  }
qed

text \<open>
  A body \<^verbatim>\<open>{"title": 5}\<close> on the initial array, sent to \<^verbatim>\<open>POST /todos\<close>,
  \<^verbatim>\<open>PUT /todos/1\<close> and \<^verbatim>\<open>PATCH /todos/1\<close>.
\<close>

theorem non_string_title_throws_witness:
  "get_prop (body req_title_5) ''title'' = JNum (Num 5) \<and>
   call_trim (JNum (Num 5)) = Inl (TypeError ''title.trim is not a function'') \<and>
   serve POST_todos req_title_5 todos_init =
     (error_handler (TypeError ''title.trim is not a function'') req_title_5, todos_init) \<and>
   serve PUT_todo req_title_5 todos_init =
     (error_handler (TypeError ''title.trim is not a function'') req_title_5, todos_init) \<and>
   serve PATCH_todo req_title_5 todos_init =
     (error_handler (TypeError ''title.trim is not a function'') req_title_5, todos_init) \<and>
   status (fst (serve POST_todos req_title_5 todos_init)) = 500 \<and>
   status (fst (serve PUT_todo req_title_5 todos_init)) = 500 \<and>
   status (fst (serve PATCH_todo req_title_5 todos_init)) = 500"
proof -
  have tb: "get_prop (body req_title_5) ''title'' = JNum (Num 5)"
    by code_simp
  then have nonstr: "\<forall>s. get_prop (body req_title_5) ''title'' \<noteq> JStr s"
    and truthy: "Boolean (get_prop (body req_title_5) ''title'')"
    and defined: "get_prop (body req_title_5) ''title'' \<noteq> JUndefined"
    by simp_all
  have ct: "call_trim (JNum (Num 5)) = Inl (TypeError ''title.trim is not a function'')"
    by simp
  have pu: "parseInt (with_default (get_prop (body req_title_5) ''userId'') (JNum (Num 1)))
              = Inr (Num 1)"
    by code_simp
  have "todos_init ! 0 \<in> set todos_init"
    by (simp add: todos_init_def)
  moreover have "strict_eq (id' (todos_init ! 0)) (parseInt_str (params_id req_title_5))"
    by code_simp
  ultimately have present:
    "\<exists>t \<in> set todos_init. strict_eq (id' t) (parseInt_str (params_id req_title_5))"
    by blast
  note inst = non_string_title_throws [OF nonstr, of todos_init]
  from inst truthy obtain e where
    e: "parseInt (with_default (get_prop (body req_title_5) ''userId'') (JNum (Num 1))) = Inl e \<or>
        call_trim (get_prop (body req_title_5) ''title'') = Inl e"
       "serve POST_todos req_title_5 todos_init = (error_handler e req_title_5, todos_init)"
    and s1: "status (fst (serve POST_todos req_title_5 todos_init)) = 500"
    by blast
  from e(1) pu tb ct have "e = TypeError ''title.trim is not a function''"
    by simp
  with e(2) have post: "serve POST_todos req_title_5 todos_init =
     (error_handler (TypeError ''title.trim is not a function'') req_title_5, todos_init)"
    by simp
  from inst defined present obtain e' where
    e': "call_trim (get_prop (body req_title_5) ''title'') = Inl e'"
        "serve PUT_todo req_title_5 todos_init = (error_handler e' req_title_5, todos_init)"
        "serve PATCH_todo req_title_5 todos_init = (error_handler e' req_title_5, todos_init)"
    and s2: "status (fst (serve PUT_todo req_title_5 todos_init)) = 500"
            "status (fst (serve PATCH_todo req_title_5 todos_init)) = 500"
    by blast
  from e'(1) tb ct have "e' = TypeError ''title.trim is not a function''"
    by simp
  with e'(2,3) have upd:
    "serve PUT_todo req_title_5 todos_init =
       (error_handler (TypeError ''title.trim is not a function'') req_title_5, todos_init)"
    "serve PATCH_todo req_title_5 todos_init =
       (error_handler (TypeError ''title.trim is not a function'') req_title_5, todos_init)"
    by simp_all
  from tb ct post upd s1 s2 show ?thesis by blast
qed

end
